theory Spec2Isabelle
  imports Main "HOL-Library.AList"
begin

section \<open>Text: UTF-16 code units, character classes, trim, split\<close>

text \<open>
  A JavaScript string is a sequence of UTF-16 code units. The handlers of
  \<^verbatim>\<open>extension.ts\<close> never do arithmetic on code units; they only compare them, so a
  code unit is modelled by its number (below 65536) and a string by the list of
  its code units. \<open>ustr\<close> writes an ASCII literal as such a list.
\<close>

type_synonym cu = nat
type_synonym ustring = "cu list"

definition ustr :: "string \<Rightarrow> ustring" where
  "ustr s = map of_char s"

definition hyphen :: cu where "hyphen = 45"
definition period :: cu where "period = 46"
definition colon :: cu where "colon = 58"
definition semicolon :: cu where "semicolon = 59"

text \<open>\<^verbatim>\<open>\w\<close> without the \<^verbatim>\<open>u\<close> and \<^verbatim>\<open>i\<close> flags: \<^verbatim>\<open>[A-Za-z0-9_]\<close>.\<close>

definition is_word :: "cu \<Rightarrow> bool" where
  "is_word c = ((65 \<le> c \<and> c \<le> 90) \<or> (97 \<le> c \<and> c \<le> 122) \<or> (48 \<le> c \<and> c \<le> 57) \<or> c = 95)"

text \<open>\<^verbatim>\<open>[\w-]\<close>.\<close>

definition is_ident :: "cu \<Rightarrow> bool" where
  "is_ident c = (is_word c \<or> c = hyphen)"

text \<open>
  \<^verbatim>\<open>\s\<close>, which is also what \<^verbatim>\<open>String.prototype.trim\<close> strips: the WhiteSpace and
  LineTerminator code points of ECMAScript (TAB, LF, VT, FF, CR, SP, NBSP,
  U+1680, U+2000..U+200A, U+2028, U+2029, U+202F, U+205F, U+3000, U+FEFF).
\<close>

definition is_space :: "cu \<Rightarrow> bool" where
  "is_space c = ((9 \<le> c \<and> c \<le> 13) \<or> c = 32 \<or> c = 160 \<or> c = 5760
     \<or> (8192 \<le> c \<and> c \<le> 8202) \<or> c = 8232 \<or> c = 8233 \<or> c = 8239 \<or> c = 8287
     \<or> c = 12288 \<or> c = 65279)"

text \<open>\<^verbatim>\<open>[^;]\<close>.\<close>

definition not_semicolon :: "cu \<Rightarrow> bool" where
  "not_semicolon c = (c \<noteq> semicolon)"

text \<open>\<^verbatim>\<open>s.trim()\<close>.\<close>

definition trim :: "ustring \<Rightarrow> ustring" where
  "trim s = rev (dropWhile is_space (rev (dropWhile is_space s)))"

text \<open>
  \<^verbatim>\<open>s.split(sep)\<close> for a separator of one code unit: the pieces between the
  separators, always at least one piece.
\<close>

fun split :: "cu \<Rightarrow> ustring \<Rightarrow> ustring list" where
  "split sep [] = [[]]"
| "split sep (c # cs) =
     (if c = sep then [] # split sep cs
      else (case split sep cs of [] \<Rightarrow> [[c]] | p # ps \<Rightarrow> (c # p) # ps))"

text \<open>\<^verbatim>\<open>s.includes(x)\<close> on strings: \<open>x\<close> occurs in \<open>s\<close> as a contiguous run.\<close>

fun str_includes :: "ustring \<Rightarrow> ustring \<Rightarrow> bool" where
  "str_includes [] x = (x = [])"
| "str_includes (c # cs) x = (take (length x) (c # cs) = x \<or> str_includes cs x)"

section \<open>The two regular expressions\<close>

text \<open>
  Both patterns of the recorder are sequences of character classes, each taken
  once or under a greedy quantifier:
  \<^verbatim>\<open>/--[\w-]+\s*:\s*[^;]+/g\<close> and \<^verbatim>\<open>/\.[\w-]+/g\<close>.
  \<open>Once p\<close> is one code unit of class \<open>p\<close>; \<open>AtLeast n p\<close> is the greedy
  repetition of class \<open>p\<close>, at least \<open>n\<close> times (\<^verbatim>\<open>*\<close> is \<open>AtLeast 0\<close>, \<^verbatim>\<open>+\<close> is
  \<open>AtLeast 1\<close>).
\<close>

datatype atom = Once "cu \<Rightarrow> bool" | AtLeast nat "cu \<Rightarrow> bool"

text \<open>
  Backtracking of a greedy quantifier: the continuation \<open>k\<close> is tried on the
  largest count first, then on one less, down to the minimum \<open>lo\<close>.
\<close>

fun backoff :: "(nat \<Rightarrow> nat option) \<Rightarrow> nat \<Rightarrow> nat \<Rightarrow> nat option" where
  "backoff k lo 0 = (if lo = 0 then k 0 else None)"
| "backoff k lo (Suc n) =
     (if Suc n < lo then None
      else (case k (Suc n) of Some r \<Rightarrow> Some r | None \<Rightarrow> backoff k lo n))"

text \<open>
  \<open>match_here as s\<close>: the pattern \<open>as\<close> matched at the start of \<open>s\<close>; the result is
  the length of the match the backtracking matcher finds first.
\<close>

primrec match_here :: "atom list \<Rightarrow> ustring \<Rightarrow> nat option" where
  "match_here [] s = Some 0"
| "match_here (a # as) s =
     (case a of
        Once p \<Rightarrow>
          (case s of
             [] \<Rightarrow> None
           | c # cs \<Rightarrow> if p c then map_option Suc (match_here as cs) else None)
      | AtLeast lo p \<Rightarrow>
          backoff (\<lambda>n. map_option (\<lambda>r. n + r) (match_here as (drop n s))) lo
            (length (takeWhile p s)))"

text \<open>
  \<^verbatim>\<open>s.match(re)\<close> for a global \<^verbatim>\<open>re\<close>: scanning from the left, the first position
  where the pattern matches gives a match, and the scan goes on behind it (one
  code unit further when the match is empty). The result is \<^verbatim>\<open>null\<close> when
  there is no match at all.
\<close>

function match_all :: "atom list \<Rightarrow> ustring \<Rightarrow> ustring list" where
  "match_all as [] = (case match_here as [] of None \<Rightarrow> [] | Some n \<Rightarrow> [[]])"
| "match_all as (c # cs) =
     (case match_here as (c # cs) of
        None \<Rightarrow> match_all as cs
      | Some n \<Rightarrow> take n (c # cs) # match_all as (drop (max n 1) (c # cs)))"
  by pat_completeness auto
termination
  by (relation "measure (\<lambda>(as, s). length s)") auto

definition js_match :: "atom list \<Rightarrow> ustring \<Rightarrow> ustring list option" where
  "js_match as s = (case match_all as s of [] \<Rightarrow> None | m # ms \<Rightarrow> Some (m # ms))"

definition var_pattern :: "atom list" where
  "var_pattern =
     [Once (\<lambda>c. c = hyphen), Once (\<lambda>c. c = hyphen), AtLeast 1 is_ident,
      AtLeast 0 is_space, Once (\<lambda>c. c = colon), AtLeast 0 is_space,
      AtLeast 1 not_semicolon]"

definition class_pattern :: "atom list" where
  "class_pattern = [Once (\<lambda>c. c = period), AtLeast 1 is_ident]"

section \<open>JSON values and the property accesses of the handlers\<close>

text \<open>
  What \<^verbatim>\<open>JSON.parse\<close> and \<^verbatim>\<open>response.json()\<close> return. An object is the list of
  its properties in enumeration order, with distinct keys. The payload of a
  number is only ever tested for being zero.
\<close>

datatype json =
    JNull
  | JBool bool
  | JNum int
  | JStr ustring
  | JArr "json list"
  | JObj "(ustring \<times> json) list"

datatype js_error = TypeError | FetchError | InvalidJson | FsError

text \<open>A value that may be \<^verbatim>\<open>undefined\<close> is a \<open>json option\<close>. \<^verbatim>\<open>!x\<close> is \<open>\<not> truthy x\<close>.\<close>

fun truthy :: "json option \<Rightarrow> bool" where
  "truthy None = False"
| "truthy (Some JNull) = False"
| "truthy (Some (JBool b)) = b"
| "truthy (Some (JNum n)) = (n \<noteq> 0)"
| "truthy (Some (JStr s)) = (s \<noteq> [])"
| "truthy (Some (JArr xs)) = True"
| "truthy (Some (JObj fs)) = True"

text \<open>
  \<^verbatim>\<open>x.name\<close> for \<open>x\<close> neither \<^verbatim>\<open>null\<close> nor \<^verbatim>\<open>undefined\<close>, and a name that no
  prototype defines (\<^verbatim>\<open>variables\<close>, \<^verbatim>\<open>classes\<close>, \<^verbatim>\<open>choices\<close>, \<^verbatim>\<open>message\<close>,
  \<^verbatim>\<open>content\<close>): an own property of an object, \<^verbatim>\<open>undefined\<close> on everything else.
\<close>

definition field :: "ustring \<Rightarrow> json \<Rightarrow> json option" where
  "field name x = (case x of JObj fs \<Rightarrow> map_of fs name | _ \<Rightarrow> None)"

text \<open>\<^verbatim>\<open>x[0]\<close> for \<open>x\<close> neither \<^verbatim>\<open>null\<close> nor \<^verbatim>\<open>undefined\<close>.\<close>

definition first_element :: "json \<Rightarrow> json option" where
  "first_element x =
     (case x of
        JArr xs \<Rightarrow> (case xs of [] \<Rightarrow> None | y # _ \<Rightarrow> Some y)
      | JStr s \<Rightarrow> (case s of [] \<Rightarrow> None | c # _ \<Rightarrow> Some (JStr [c]))
      | JObj fs \<Rightarrow> map_of fs (ustr ''0'')
      | _ \<Rightarrow> None)"

text \<open>\<^verbatim>\<open>x?.name\<close>: \<^verbatim>\<open>undefined\<close> when \<open>x\<close> is \<^verbatim>\<open>null\<close> or \<^verbatim>\<open>undefined\<close>.\<close>

definition opt_field :: "ustring \<Rightarrow> json option \<Rightarrow> json option" where
  "opt_field name x =
     (case x of None \<Rightarrow> None | Some JNull \<Rightarrow> None | Some y \<Rightarrow> field name y)"

definition variables_key :: ustring where "variables_key = ustr ''variables''"
definition classes_key :: ustring where "classes_key = ustr ''classes''"

text \<open>The initial value of \<^verbatim>\<open>data\<close>: \<^verbatim>\<open>{ variables: {}, classes: [] }\<close>.\<close>

definition empty_record :: json where
  "empty_record = JObj [(variables_key, JObj []), (classes_key, JArr [])]"

text \<open>
  \<^verbatim>\<open>data.variables[key] = value\<close>, for a key that starts with two hyphens (so it
  is no array index). Reading a property of \<^verbatim>\<open>null\<close> or \<^verbatim>\<open>undefined\<close> throws;
  so does, in the strict mode of a compiled module, creating a property on a
  string, a number or a boolean. A named property set on an array is not part of
  what \<^verbatim>\<open>JSON.stringify\<close> writes, so the value is unchanged.
\<close>

definition set_variable :: "ustring \<Rightarrow> ustring \<Rightarrow> json \<Rightarrow> js_error + json" where
  "set_variable key val data =
     (case data of
        JObj fs \<Rightarrow>
          (case map_of fs variables_key of
             Some (JObj vs) \<Rightarrow>
               Inr (JObj (AList.update variables_key
                            (JObj (AList.update key (JStr val) vs)) fs))
           | Some (JArr xs) \<Rightarrow> Inr data
           | _ \<Rightarrow> Inl TypeError)
      | _ \<Rightarrow> Inl TypeError)"

text \<open>
  \<^verbatim>\<open>data.classes.includes(className)\<close>: \<^verbatim>\<open>Array.prototype.includes\<close> on an array,
  \<^verbatim>\<open>String.prototype.includes\<close> on a string, a TypeError on anything else.
\<close>

definition classes_includes :: "ustring \<Rightarrow> json \<Rightarrow> js_error + bool" where
  "classes_includes c data =
     (case data of
        JObj fs \<Rightarrow>
          (case map_of fs classes_key of
             Some (JArr xs) \<Rightarrow> Inr (JStr c \<in> set xs)
           | Some (JStr s) \<Rightarrow> Inr (str_includes s c)
           | _ \<Rightarrow> Inl TypeError)
      | _ \<Rightarrow> Inl TypeError)"

text \<open>\<^verbatim>\<open>data.classes.push(className)\<close>: only an array has \<^verbatim>\<open>push\<close>.\<close>

definition classes_push :: "ustring \<Rightarrow> json \<Rightarrow> js_error + json" where
  "classes_push c data =
     (case data of
        JObj fs \<Rightarrow>
          (case map_of fs classes_key of
             Some (JArr xs) \<Rightarrow>
               Inr (JObj (AList.update classes_key (JArr (xs @ [JStr c])) fs))
           | _ \<Rightarrow> Inl TypeError)
      | _ \<Rightarrow> Inl TypeError)"

section \<open>The extension's state\<close>

text \<open>
  The messages of the handlers, by the line of \<^verbatim>\<open>extension.ts\<close> that shows
  them: \<open>Info_register_mode b\<close> is the message of line 31 (the mode, ON or OFF),
  \<open>Info_variable k\<close> the message of line 64 with \<^verbatim>\<open>${key}\<close>, \<open>Info_class c\<close> the
  message of line 73 with \<^verbatim>\<open>${className}\<close> (all by \<^verbatim>\<open>showInformationMessage\<close>);
  \<open>Error_no_api_key\<close> and \<open>Error_transform_failed\<close> are the texts of lines 95
  and 119 (by \<^verbatim>\<open>showErrorMessage\<close>).
\<close>

datatype notification =
    Info_register_mode bool
  | Info_variable ustring
  | Info_class ustring
  | Error_no_api_key
  | Error_transform_failed

text \<open>The entry that \<^verbatim>\<open>console.error\<close> writes at line 56.\<close>

datatype log_entry = Dictionary_read_failed

text \<open>
  The active editor: the document as the lines above the active line, the text
  of the active line (\<^verbatim>\<open>lineAt(selection.active.line).text\<close>, whose range is
  \<^verbatim>\<open>line.range\<close>), and the lines below it.
\<close>

record editor =
  above :: "ustring list"
  current :: ustring
  below :: "ustring list"

text \<open>
  The file at \<^verbatim>\<open>dictionaryPath\<close>, by what lines 50 to 57 and line 78 make of
  it. \<open>Missing\<close>: there is no file. \<open>Unreadable\<close>: reading or \<^verbatim>\<open>JSON.parse\<close> throws, and
  the path can be written (a file whose content is not JSON, say). \<open>Blocked\<close>:
  the path can be neither read nor written as a file (a directory, say), so
  \<^verbatim>\<open>readFileSync\<close> throws at line 52 and \<^verbatim>\<open>writeFileSync\<close> at line 78.
  \<open>Holds j\<close>: \<^verbatim>\<open>JSON.parse\<close> returns \<open>j\<close>. The storage directory is created at
  activation, so a file that is absent or has been read is taken to be
  writable.
\<close>

datatype dict_file = Missing | Unreadable | Blocked | Holds json

text \<open>The two settings, each a string or \<^verbatim>\<open>undefined\<close>.\<close>

record config =
  apiKey :: "ustring option"
  systemPrompt :: "ustring option"

datatype prompt = DEFAULT_PROMPT | Custom_prompt ustring

text \<open>
  One call of \<^verbatim>\<open>fetch\<close>: the credential of the \<^verbatim>\<open>Authorization\<close> header and the
  contents of the system and the user message (endpoint, model, temperature
  and \<^verbatim>\<open>max_tokens\<close> are constants).
\<close>

record request =
  bearer :: ustring
  system_content :: prompt
  user_content :: ustring

text \<open>
  What the service does with a request: \<^verbatim>\<open>fetch\<close> rejects; or
  \<^verbatim>\<open>response.json()\<close> rejects; or it resolves to a value.
\<close>

datatype fetch_outcome = Network_failure | Body_not_json | Body json

text \<open>
  What the handlers read and change: the module's flag, the active editor (if
  any), the settings, the dictionary file, and, oldest first, the messages
  shown, the console entries, the requests sent with \<^verbatim>\<open>fetch\<close> and the texts that
  \<^verbatim>\<open>editBuilder.replace(line.range, _)\<close> has put in place of the active line.
\<close>

record ext_state =
  registerMode :: bool
  active_editor :: "editor option"
  settings :: config
  dictionary_file :: dict_file
  shown :: "notification list"
  console :: "log_entry list"
  requests :: "request list"
  edits :: "ustring list"

text \<open>How an invocation ends: the handler returns, or an exception leaves it.\<close>

datatype completion = Returned | Threw js_error

section \<open>\<^verbatim>\<open>css-talk.toggleRegisterMode\<close>\<close>

definition toggleRegisterMode :: "ext_state \<Rightarrow> ext_state" where
  "toggleRegisterMode s =
     (let s1 = s\<lparr>registerMode := \<not> registerMode s\<rparr>
      in s1\<lparr>shown := shown s1 @ [Info_register_mode (registerMode s1)]\<rparr>)"

section \<open>\<^verbatim>\<open>css-talk.registerLine\<close>\<close>

text \<open>
  \<^verbatim>\<open>for (const x of xs) body\<close>: the body may show messages and may throw; a throw
  ends the loop, the messages shown before it stay shown.
\<close>

fun for_each ::
  "('a \<Rightarrow> json \<Rightarrow> notification list \<times> (js_error + json)) \<Rightarrow> 'a list \<Rightarrow> json
     \<Rightarrow> notification list \<times> (js_error + json)" where
  "for_each body [] data = ([], Inr data)"
| "for_each body (x # xs) data =
     (case body x data of
        (ns, Inl e) \<Rightarrow> (ns, Inl e)
      | (ns, Inr data') \<Rightarrow>
          (case for_each body xs data' of (ms, r) \<Rightarrow> (ns @ ms, r)))"

text \<open>
  The body of the loop over \<^verbatim>\<open>matchVars\<close>. \<^verbatim>\<open>[key, value]\<close> takes the first two
  pieces of the split; with fewer than two pieces \<^verbatim>\<open>value\<close> is \<^verbatim>\<open>undefined\<close>.
\<close>

definition register_variable ::
  "ustring \<Rightarrow> json \<Rightarrow> notification list \<times> (js_error + json)" where
  "register_variable v data =
     (case map trim (split colon v) of
        key # val # _ \<Rightarrow>
          if key \<noteq> [] \<and> val \<noteq> [] then
            (case set_variable key val data of
               Inl e \<Rightarrow> ([], Inl e)
             | Inr data' \<Rightarrow> ([Info_variable key], Inr data'))
          else ([], Inr data)
      | _ \<Rightarrow> ([], Inr data))"

text \<open>The body of the loop over \<^verbatim>\<open>matchClasses\<close>.\<close>

definition register_class ::
  "ustring \<Rightarrow> json \<Rightarrow> notification list \<times> (js_error + json)" where
  "register_class className data =
     (case classes_includes className data of
        Inl e \<Rightarrow> ([], Inl e)
      | Inr True \<Rightarrow> ([], Inr data)
      | Inr False \<Rightarrow>
          (case classes_push className data of
             Inl e \<Rightarrow> ([], Inl e)
           | Inr data' \<Rightarrow> ([Info_class className], Inr data')))"

text \<open>Lines 45 to 57: the record the merge starts from, and what is logged.\<close>

definition load_dictionary :: "dict_file \<Rightarrow> json \<times> log_entry list" where
  "load_dictionary f =
     (case f of
        Missing \<Rightarrow> (empty_record, [])
      | Unreadable \<Rightarrow> (empty_record, [Dictionary_read_failed])
      | Blocked \<Rightarrow> (empty_record, [Dictionary_read_failed])
      | Holds j \<Rightarrow> (j, []))"

text \<open>
  Line 78, \<^verbatim>\<open>writeFileSync(dictionaryPath, JSON.stringify(data, null, 2))\<close>, outside
  any \<^verbatim>\<open>try\<close>: it leaves a file that holds \<open>data\<close>, or throws where the path
  cannot be written.
\<close>

definition write_dictionary :: "dict_file \<Rightarrow> json \<Rightarrow> js_error + dict_file" where
  "write_dictionary f data =
     (case f of
        Blocked \<Rightarrow> Inl FsError
      | _ \<Rightarrow> Inr (Holds data))"

text \<open>Lines 59 to 76: the two loops, each guarded by its match not being \<^verbatim>\<open>null\<close>.\<close>

definition merge_line ::
  "ustring \<Rightarrow> json \<Rightarrow> notification list \<times> (js_error + json)" where
  "merge_line currentLine data =
     (let matchVars = js_match var_pattern currentLine;
          matchClasses = js_match class_pattern currentLine
      in case (case matchVars of None \<Rightarrow> ([], Inr data)
               | Some vs \<Rightarrow> for_each register_variable vs data) of
           (ns, Inl e) \<Rightarrow> (ns, Inl e)
         | (ns, Inr data') \<Rightarrow>
             (case (case matchClasses of None \<Rightarrow> ([], Inr data')
                    | Some cs \<Rightarrow> for_each register_class cs data') of
                (ms, r) \<Rightarrow> (ns @ ms, r)))"

definition registerLine :: "ext_state \<Rightarrow> completion \<times> ext_state" where
  "registerLine s =
     (case active_editor s of
        None \<Rightarrow> (Returned, s)
      | Some ed \<Rightarrow>
          (case load_dictionary (dictionary_file s) of
             (data, logs) \<Rightarrow>
               (case merge_line (current ed) data of
                  (ns, Inl e) \<Rightarrow>
                    (Threw e, s\<lparr>shown := shown s @ ns, console := console s @ logs\<rparr>)
                | (ns, Inr data') \<Rightarrow>
                    (case write_dictionary (dictionary_file s) data' of
                       Inl e \<Rightarrow>
                         (Threw e, s\<lparr>shown := shown s @ ns, console := console s @ logs\<rparr>)
                     | Inr f \<Rightarrow>
                         (Returned,
                          s\<lparr>shown := shown s @ ns, console := console s @ logs,
                            dictionary_file := f\<rparr>)))))"

section \<open>\<^verbatim>\<open>css-talk.transformToCSS\<close>\<close>

text \<open>\<^verbatim>\<open>data.choices[0]?.message?.content\<close>, for \<^verbatim>\<open>data.choices\<close> truthy.\<close>

definition candidate_content :: "json \<Rightarrow> json option" where
  "candidate_content choices =
     opt_field (ustr ''content'') (opt_field (ustr ''message'') (first_element choices))"

text \<open>\<^verbatim>\<open>!data || !data.choices || !data.choices[0]?.message?.content\<close>.\<close>

definition response_rejected :: "json \<Rightarrow> bool" where
  "response_rejected data =
     (if \<not> truthy (Some data) then True
      else (case field (ustr ''choices'') data of
              None \<Rightarrow> True
            | Some choices \<Rightarrow>
                if \<not> truthy (Some choices) then True
                else \<not> truthy (candidate_content choices)))"

text \<open>
  \<^verbatim>\<open>data.choices[0].message.content.trim()\<close>, evaluated in the callback of
  \<^verbatim>\<open>editor.edit\<close> once the check above has passed: only a string has \<^verbatim>\<open>trim\<close>.
\<close>

definition replacement_text :: "json \<Rightarrow> js_error + ustring" where
  "replacement_text data =
     (case field (ustr ''choices'') data of
        None \<Rightarrow> Inl TypeError
      | Some choices \<Rightarrow>
          (case candidate_content choices of
             Some (JStr c) \<Rightarrow> Inr (trim c)
           | _ \<Rightarrow> Inl TypeError))"

text \<open>Line 92: \<^verbatim>\<open>get('css-talk.systemPrompt') || DEFAULT_PROMPT\<close>.\<close>

definition effective_prompt :: "config \<Rightarrow> prompt" where
  "effective_prompt cfg =
     (case systemPrompt cfg of
        None \<Rightarrow> DEFAULT_PROMPT
      | Some p \<Rightarrow> if p = [] then DEFAULT_PROMPT else Custom_prompt p)"

text \<open>Lines 99 to 114: the request that \<^verbatim>\<open>fetch\<close> sends.\<close>

definition chat_request :: "ustring \<Rightarrow> prompt \<Rightarrow> ustring \<Rightarrow> request" where
  "chat_request key sys text = \<lparr>bearer = key, system_content = sys, user_content = text\<rparr>"

definition transformToCSS ::
  "(request \<Rightarrow> fetch_outcome) \<Rightarrow> ext_state \<Rightarrow> completion \<times> ext_state" where
  "transformToCSS service s =
     (case active_editor s of
        None \<Rightarrow> (Returned, s)
      | Some ed \<Rightarrow>
          (let text = current ed;
               systemPrompt = effective_prompt (settings s)
           in case apiKey (settings s) of
                None \<Rightarrow> (Returned, s\<lparr>shown := shown s @ [Error_no_api_key]\<rparr>)
              | Some k \<Rightarrow>
                  if k = [] then (Returned, s\<lparr>shown := shown s @ [Error_no_api_key]\<rparr>)
                  else
                    (let req = chat_request k systemPrompt text;
                         s1 = s\<lparr>requests := requests s @ [req]\<rparr>
                     in case service req of
                          Network_failure \<Rightarrow> (Threw FetchError, s1)
                        | Body_not_json \<Rightarrow> (Threw InvalidJson, s1)
                        | Body data \<Rightarrow>
                            if response_rejected data then
                              (Returned, s1\<lparr>shown := shown s1 @ [Error_transform_failed]\<rparr>)
                            else
                              (case replacement_text data of
                                 Inl e \<Rightarrow> (Threw e, s1)
                               | Inr t \<Rightarrow>
                                   (Returned,
                                    s1\<lparr>active_editor := Some (ed\<lparr>current := t\<rparr>),
                                       edits := edits s1 @ [t]\<rparr>)))))"

section \<open>The dictionary as the two-field record\<close>

text \<open>
  The schema of the file: \<^verbatim>\<open>{ variables: Record<string, string>, classes: string[] }\<close>,
  the variables in the enumeration order of the object.
\<close>

record dictionary =
  variables :: "(ustring \<times> ustring) list"
  classes :: "ustring list"

fun strings_of :: "json list \<Rightarrow> ustring list option" where
  "strings_of [] = Some []"
| "strings_of (x # xs) =
     (case x of
        JStr s \<Rightarrow> (case strings_of xs of Some ss \<Rightarrow> Some (s # ss) | None \<Rightarrow> None)
      | _ \<Rightarrow> None)"

fun entries_of :: "(ustring \<times> json) list \<Rightarrow> (ustring \<times> ustring) list option" where
  "entries_of [] = Some []"
| "entries_of ((k, x) # xs) =
     (case x of
        JStr s \<Rightarrow> (case entries_of xs of Some es \<Rightarrow> Some ((k, s) # es) | None \<Rightarrow> None)
      | _ \<Rightarrow> None)"

text \<open>
  A JSON value read as the two-field record: an object whose \<^verbatim>\<open>variables\<close> is an
  object of strings and whose \<^verbatim>\<open>classes\<close> is an array of strings.
\<close>

definition as_dictionary :: "json \<Rightarrow> dictionary option" where
  "as_dictionary data =
     (case data of
        JObj fs \<Rightarrow>
          (case map_of fs variables_key of
             Some (JObj vs) \<Rightarrow>
               (case map_of fs classes_key of
                  Some (JArr cs) \<Rightarrow>
                    (case entries_of vs of
                       Some es \<Rightarrow>
                         (case strings_of cs of
                            Some ss \<Rightarrow> Some \<lparr>variables = es, classes = ss\<rparr>
                          | None \<Rightarrow> None)
                     | None \<Rightarrow> None)
                | _ \<Rightarrow> None)
           | _ \<Rightarrow> None)
      | _ \<Rightarrow> None)"

text \<open>
  The record a recorder invocation starts from and can write back, when there
  is one: the empty record for a file that is absent or unreadable, the content
  of the file when it is a two-field record; none for a blocked path.
\<close>

definition dictionary_of :: "dict_file \<Rightarrow> dictionary option" where
  "dictionary_of f =
     (case f of
        Missing \<Rightarrow> Some \<lparr>variables = [], classes = []\<rparr>
      | Unreadable \<Rightarrow> Some \<lparr>variables = [], classes = []\<rparr>
      | Blocked \<Rightarrow> None
      | Holds data \<Rightarrow> as_dictionary data)"

text \<open>
  The pair that the loop body of lines 61 to 65 stores for a match \<open>v\<close>, if it
  stores one: the first two pieces of \<^verbatim>\<open>v.split(':')\<close>, trimmed, when neither is
  empty.
\<close>

definition var_entry :: "ustring \<Rightarrow> (ustring \<times> ustring) option" where
  "var_entry v =
     (case map trim (split colon v) of
        key # val # _ \<Rightarrow> if key \<noteq> [] \<and> val \<noteq> [] then Some (key, val) else None
      | _ \<Rightarrow> None)"

text \<open>The pairs stored for a line, in the order of the matches; the class tokens of a line.\<close>

definition var_entries :: "ustring \<Rightarrow> (ustring \<times> ustring) list" where
  "var_entries line = List.map_filter var_entry (match_all var_pattern line)"

definition class_tokens :: "ustring \<Rightarrow> ustring list" where
  "class_tokens line = match_all class_pattern line"

text \<open>Assignments \<^verbatim>\<open>variables[k] = v\<close> in sequence.\<close>

definition store :: "(ustring \<times> ustring) list \<Rightarrow> (ustring \<times> ustring) list \<Rightarrow> (ustring \<times> ustring) list" where
  "store es vs = fold (\<lambda>(k, v). AList.update k v) es vs"

text \<open>
  The tokens that lines 70 to 75 push onto \<open>cs\<close>, in the order pushed: a token
  is pushed unless the list, with what was pushed before, has it already.
\<close>

fun added :: "ustring list \<Rightarrow> ustring list \<Rightarrow> ustring list" where
  "added cs [] = []"
| "added cs (t # ts) = (if t \<in> set cs then added cs ts else t # added (cs @ [t]) ts)"

text \<open>A list without the repeats of its elements, each kept where it occurs first.\<close>

fun first_occurrences :: "'a list \<Rightarrow> 'a list" where
  "first_occurrences [] = []"
| "first_occurrences (x # xs) = x # filter (\<lambda>y. y \<noteq> x) (first_occurrences xs)"

section \<open>Concrete states\<close>

text \<open>
  The state right after activation, with an editor opened on a document of one
  line, a given dictionary file and given settings.
\<close>

definition opened :: "ustring \<Rightarrow> dict_file \<Rightarrow> config \<Rightarrow> ext_state" where
  "opened line f cfg =
     \<lparr>registerMode = False,
      active_editor = Some \<lparr>above = [], current = line, below = []\<rparr>,
      settings = cfg, dictionary_file = f,
      shown = [], console = [], requests = [], edits = []\<rparr>"

definition no_settings :: config where
  "no_settings = \<lparr>apiKey = None, systemPrompt = None\<rparr>"

text \<open>The defining equations, for evaluating the handlers on concrete states.\<close>

lemmas text_defs =
  ustr_def hyphen_def period_def colon_def semicolon_def is_word_def is_ident_def
  is_space_def not_semicolon_def trim_def

lemmas recorder_defs =
  opened_def no_settings_def registerLine_def load_dictionary_def write_dictionary_def
  merge_line_def js_match_def
  var_pattern_def class_pattern_def register_variable_def register_class_def
  set_variable_def classes_includes_def classes_push_def empty_record_def
  variables_key_def classes_key_def dictionary_of_def as_dictionary_def

lemmas json_defs =
  field_def first_element_def opt_field_def candidate_content_def response_rejected_def
  replacement_text_def

lemmas transform_defs =
  opened_def transformToCSS_def effective_prompt_def chat_request_def

section \<open>The recorder on a two-field record\<close>

lemma keys_distinct: "variables_key \<noteq> classes_key"
  by (simp add: variables_key_def classes_key_def ustr_def)

lemma strings_of_map: "strings_of (map JStr ss) = Some ss"
  by (induction ss) auto

lemma strings_of_SomeD: "strings_of xs = Some ss \<Longrightarrow> xs = map JStr ss"
  by (induction xs arbitrary: ss) (auto split: json.splits option.splits)

lemma strings_of_Some: "strings_of xs = Some ss \<longleftrightarrow> xs = map JStr ss"
  using strings_of_map strings_of_SomeD by blast

lemma entries_of_map: "entries_of (map (\<lambda>(k, v). (k, JStr v)) es) = Some es"
  by (induction es) auto

lemma entries_of_SomeD: "entries_of xs = Some es \<Longrightarrow> xs = map (\<lambda>(k, v). (k, JStr v)) es"
  by (induction xs arbitrary: es rule: entries_of.induct) (auto split: json.splits option.splits)

lemma entries_of_Some: "entries_of xs = Some es \<longleftrightarrow> xs = map (\<lambda>(k, v). (k, JStr v)) es"
  using entries_of_map entries_of_SomeD by blast

lemma as_dictionary_Some:
  "as_dictionary data = Some d \<longleftrightarrow>
     (\<exists>fs. data = JObj fs
        \<and> map_of fs variables_key = Some (JObj (map (\<lambda>(k, v). (k, JStr v)) (variables d)))
        \<and> map_of fs classes_key = Some (JArr (map JStr (classes d))))"
proof
  assume "as_dictionary data = Some d"
  then show "\<exists>fs. data = JObj fs
        \<and> map_of fs variables_key = Some (JObj (map (\<lambda>(k, v). (k, JStr v)) (variables d)))
        \<and> map_of fs classes_key = Some (JArr (map JStr (classes d)))"
    by (auto simp: as_dictionary_def strings_of_Some entries_of_Some
          split: json.splits option.splits)
next
  assume "\<exists>fs. data = JObj fs
        \<and> map_of fs variables_key = Some (JObj (map (\<lambda>(k, v). (k, JStr v)) (variables d)))
        \<and> map_of fs classes_key = Some (JArr (map JStr (classes d)))"
  then obtain fs where fs: "data = JObj fs"
    "map_of fs variables_key = Some (JObj (map (\<lambda>(k, v). (k, JStr v)) (variables d)))"
    "map_of fs classes_key = Some (JArr (map JStr (classes d)))"
    by blast
  have "entries_of (map (\<lambda>(k, v). (k, JStr v)) (variables d)) = Some (variables d)"
    by (simp add: entries_of_Some)
  moreover have "strings_of (map JStr (classes d)) = Some (classes d)"
    by (simp add: strings_of_Some)
  ultimately show "as_dictionary data = Some d"
    using fs by (simp add: as_dictionary_def)
qed

lemma as_dictionary_empty: "as_dictionary empty_record = Some \<lparr>variables = [], classes = []\<rparr>"
  by (simp add: as_dictionary_def empty_record_def keys_distinct keys_distinct [symmetric])

lemma update_map_JStr:
  "AList.update k (JStr v) (map (\<lambda>(k, v). (k, JStr v)) es)
     = map (\<lambda>(k, v). (k, JStr v)) (AList.update k v es)"
  by (induction es) auto

lemma set_variable_dictionary:
  assumes "as_dictionary data = Some d"
  shows "\<exists>data'. set_variable k v data = Inr data'
           \<and> as_dictionary data' = Some (d\<lparr>variables := AList.update k v (variables d)\<rparr>)"
proof -
  from assms obtain fs where fs: "data = JObj fs"
    "map_of fs variables_key = Some (JObj (map (\<lambda>(k, v). (k, JStr v)) (variables d)))"
    "map_of fs classes_key = Some (JArr (map JStr (classes d)))"
    unfolding as_dictionary_Some by blast
  let ?vs' = "JObj (AList.update k (JStr v) (map (\<lambda>(k, v). (k, JStr v)) (variables d)))"
  let ?data' = "JObj (AList.update variables_key ?vs' fs)"
  have 1: "set_variable k v data = Inr ?data'"
    using fs by (simp add: set_variable_def)
  have 2: "as_dictionary ?data' = Some (d\<lparr>variables := AList.update k v (variables d)\<rparr>)"
    unfolding as_dictionary_Some using fs keys_distinct keys_distinct [symmetric]
    by (simp add: update_conv' update_map_JStr)
  from 1 2 show ?thesis by blast
qed

lemma classes_includes_dictionary:
  assumes "as_dictionary data = Some d"
  shows "classes_includes c data = Inr (c \<in> set (classes d))"
proof -
  from assms obtain fs where fs: "data = JObj fs"
    "map_of fs classes_key = Some (JArr (map JStr (classes d)))"
    unfolding as_dictionary_Some by blast
  have "JStr c \<in> set (map JStr (classes d)) \<longleftrightarrow> c \<in> set (classes d)"
    by auto
  then show ?thesis using fs by (simp add: classes_includes_def)
qed

lemma classes_push_dictionary:
  assumes "as_dictionary data = Some d"
  shows "\<exists>data'. classes_push c data = Inr data'
           \<and> as_dictionary data' = Some (d\<lparr>classes := classes d @ [c]\<rparr>)"
proof -
  from assms obtain fs where fs: "data = JObj fs"
    "map_of fs variables_key = Some (JObj (map (\<lambda>(k, v). (k, JStr v)) (variables d)))"
    "map_of fs classes_key = Some (JArr (map JStr (classes d)))"
    unfolding as_dictionary_Some by blast
  let ?data' = "JObj (AList.update classes_key (JArr (map JStr (classes d) @ [JStr c])) fs)"
  have 1: "classes_push c data = Inr ?data'"
    using fs by (simp add: classes_push_def)
  have 2: "as_dictionary ?data' = Some (d\<lparr>classes := classes d @ [c]\<rparr>)"
    unfolding as_dictionary_Some using fs keys_distinct keys_distinct [symmetric]
    by (simp add: update_conv')
  from 1 2 show ?thesis by blast
qed

lemma register_variable_None:
  "var_entry v = None \<Longrightarrow> register_variable v data = ([], Inr data)"
  by (auto simp: var_entry_def register_variable_def split: list.splits if_splits)

lemma register_variable_Some:
  assumes "var_entry v = Some (k, w)" and "as_dictionary data = Some d"
  shows "\<exists>data'. register_variable v data = ([Info_variable k], Inr data')
           \<and> as_dictionary data' = Some (d\<lparr>variables := AList.update k w (variables d)\<rparr>)"
proof -
  from set_variable_dictionary [OF assms(2), of k w] obtain data'
    where d': "set_variable k w data = Inr data'"
      "as_dictionary data' = Some (d\<lparr>variables := AList.update k w (variables d)\<rparr>)"
    by blast
  from assms(1) have "register_variable v data = ([Info_variable k], Inr data')"
    using d'(1)
    by (auto simp: var_entry_def register_variable_def split: list.splits if_splits)
  with d'(2) show ?thesis by blast
qed

lemma for_each_register_variable:
  assumes "as_dictionary data = Some d"
  shows "\<exists>data'. for_each register_variable vs data
             = (map (\<lambda>e. Info_variable (fst e)) (List.map_filter var_entry vs), Inr data')
           \<and> as_dictionary data' = Some (d\<lparr>variables := store (List.map_filter var_entry vs) (variables d)\<rparr>)"
  using assms
proof (induction vs arbitrary: data d)
  case Nil
  then show ?case by (simp add: store_def List.map_filter_simps)
next
  case (Cons v vs)
  show ?case
  proof (cases "var_entry v")
    case None
    from Cons.IH [OF Cons.prems] obtain data' where
      "for_each register_variable vs data
         = (map (\<lambda>e. Info_variable (fst e)) (List.map_filter var_entry vs), Inr data')"
      "as_dictionary data' = Some (d\<lparr>variables := store (List.map_filter var_entry vs) (variables d)\<rparr>)"
      by blast
    with None show ?thesis
      by (simp add: register_variable_None List.map_filter_simps)
  next
    case (Some e)
    obtain k w where e: "e = (k, w)" by (cases e)
    from register_variable_Some [OF Some [unfolded e] Cons.prems] obtain data1 where
      d1: "register_variable v data = ([Info_variable k], Inr data1)"
        "as_dictionary data1 = Some (d\<lparr>variables := AList.update k w (variables d)\<rparr>)"
      by blast
    from Cons.IH [OF d1(2)] obtain data' where
      d': "for_each register_variable vs data1
         = (map (\<lambda>e. Info_variable (fst e)) (List.map_filter var_entry vs), Inr data')"
      "as_dictionary data' = Some (d\<lparr>variables := store (List.map_filter var_entry vs) (AList.update k w (variables d))\<rparr>)"
      by auto
    from Some e d1(1) d' show ?thesis
      by (simp add: List.map_filter_simps store_def)
  qed
qed

lemma register_class_dictionary:
  assumes "as_dictionary data = Some d"
  shows "\<exists>data'. register_class t data = (map Info_class (added (classes d) [t]), Inr data')
           \<and> as_dictionary data' = Some (d\<lparr>classes := classes d @ added (classes d) [t]\<rparr>)"
proof (cases "t \<in> set (classes d)")
  case True
  then have "register_class t data = ([], Inr data)"
    by (simp add: register_class_def classes_includes_dictionary [OF assms])
  with True assms show ?thesis by simp
next
  case False
  from classes_push_dictionary [OF assms, of t] obtain data' where
    d': "classes_push t data = Inr data'"
      "as_dictionary data' = Some (d\<lparr>classes := classes d @ [t]\<rparr>)"
    by blast
  from False d'(1) have "register_class t data = ([Info_class t], Inr data')"
    by (simp add: register_class_def classes_includes_dictionary [OF assms])
  with False d'(2) show ?thesis by simp
qed

lemma for_each_register_class:
  assumes "as_dictionary data = Some d"
  shows "\<exists>data'. for_each register_class ts data = (map Info_class (added (classes d) ts), Inr data')
           \<and> as_dictionary data' = Some (d\<lparr>classes := classes d @ added (classes d) ts\<rparr>)"
  using assms
proof (induction ts arbitrary: data d)
  case Nil
  then show ?case by simp
next
  case (Cons t ts)
  from register_class_dictionary [OF Cons.prems, of t] obtain data1 where
    d1: "register_class t data = (map Info_class (added (classes d) [t]), Inr data1)"
      "as_dictionary data1 = Some (d\<lparr>classes := classes d @ added (classes d) [t]\<rparr>)"
    by blast
  from Cons.IH [OF d1(2)] obtain data' where
    d': "for_each register_class ts data1
           = (map Info_class (added (classes d @ added (classes d) [t]) ts), Inr data')"
      "as_dictionary data' = Some (d\<lparr>classes := (classes d @ added (classes d) [t])
           @ added (classes d @ added (classes d) [t]) ts\<rparr>)"
    by auto
  from d1(1) d' show ?case
    by (cases "t \<in> set (classes d)") simp_all
qed

lemma js_match_for_each:
  "(case js_match p line of None \<Rightarrow> ([], Inr data) | Some xs \<Rightarrow> for_each body xs data)
     = for_each body (match_all p line) data"
  by (simp add: js_match_def split: list.splits)

lemma merge_line_dictionary:
  assumes "as_dictionary data = Some d"
  shows "\<exists>data'. merge_line line data
             = (map (\<lambda>e. Info_variable (fst e)) (var_entries line)
                  @ map Info_class (added (classes d) (class_tokens line)), Inr data')
           \<and> as_dictionary data'
               = Some \<lparr>variables = store (var_entries line) (variables d),
                       classes = classes d @ added (classes d) (class_tokens line)\<rparr>"
proof -
  from for_each_register_variable [OF assms, of "match_all var_pattern line"] obtain data1 where
    d1: "for_each register_variable (match_all var_pattern line) data
           = (map (\<lambda>e. Info_variable (fst e)) (var_entries line), Inr data1)"
      "as_dictionary data1 = Some (d\<lparr>variables := store (var_entries line) (variables d)\<rparr>)"
    unfolding var_entries_def by blast
  from for_each_register_class [OF d1(2), of "match_all class_pattern line"] obtain data' where
    d': "for_each register_class (match_all class_pattern line) data1
           = (map Info_class (added (classes d) (class_tokens line)), Inr data')"
      "as_dictionary data' = Some \<lparr>variables = store (var_entries line) (variables d),
                       classes = classes d @ added (classes d) (class_tokens line)\<rparr>"
    unfolding class_tokens_def by auto
  have "merge_line line data
          = (map (\<lambda>e. Info_variable (fst e)) (var_entries line)
                  @ map Info_class (added (classes d) (class_tokens line)), Inr data')"
    unfolding merge_line_def Let_def js_match_for_each using d1(1) d'(1) by simp
  with d'(2) show ?thesis by blast
qed

lemma load_dictionary_prior:
  assumes "dictionary_of f = Some d"
  shows "as_dictionary (fst (load_dictionary f)) = Some d"
  using assms
  by (cases f) (simp_all add: dictionary_of_def load_dictionary_def as_dictionary_empty)

lemma write_dictionary_prior:
  assumes "dictionary_of f = Some d"
  shows "write_dictionary f data = Inr (Holds data)"
  using assms by (cases f) (simp_all add: dictionary_of_def write_dictionary_def)

lemma registerLine_dictionary:
  assumes "active_editor s = Some ed" and "dictionary_of (dictionary_file s) = Some d"
  shows "\<exists>data'. registerLine s
             = (Returned,
                s\<lparr>shown := shown s @ map (\<lambda>e. Info_variable (fst e)) (var_entries (current ed))
                     @ map Info_class (added (classes d) (class_tokens (current ed))),
                  console := console s @ snd (load_dictionary (dictionary_file s)),
                  dictionary_file := Holds data'\<rparr>)
           \<and> as_dictionary data'
               = Some \<lparr>variables = store (var_entries (current ed)) (variables d),
                       classes = classes d @ added (classes d) (class_tokens (current ed))\<rparr>"
proof -
  obtain data logs where l: "load_dictionary (dictionary_file s) = (data, logs)"
    by (cases "load_dictionary (dictionary_file s)")
  with load_dictionary_prior [OF assms(2)] have "as_dictionary data = Some d" by simp
  from merge_line_dictionary [OF this, of "current ed"] obtain data' where
    d': "merge_line (current ed) data
             = (map (\<lambda>e. Info_variable (fst e)) (var_entries (current ed))
                  @ map Info_class (added (classes d) (class_tokens (current ed))), Inr data')"
      "as_dictionary data'
               = Some \<lparr>variables = store (var_entries (current ed)) (variables d),
                       classes = classes d @ added (classes d) (class_tokens (current ed))\<rparr>"
    by blast
  have "registerLine s
             = (Returned,
                s\<lparr>shown := shown s @ map (\<lambda>e. Info_variable (fst e)) (var_entries (current ed))
                     @ map Info_class (added (classes d) (class_tokens (current ed))),
                  console := console s @ snd (load_dictionary (dictionary_file s)),
                  dictionary_file := Holds data'\<rparr>)"
    using assms(1) l d'(1) write_dictionary_prior [OF assms(2)]
    by (simp add: registerLine_def)
  with d'(2) show ?thesis by blast
qed

lemma added_filter:
  "added cs ts = filter (\<lambda>c. c \<notin> set cs) (first_occurrences ts)"
proof (induction ts arbitrary: cs)
  case Nil
  then show ?case by simp
next
  case (Cons t ts)
  show ?case
  proof (cases "t \<in> set cs")
    case True
    then have "filter (\<lambda>c. c \<notin> set cs) (filter (\<lambda>y. y \<noteq> t) (first_occurrences ts))
                 = filter (\<lambda>c. c \<notin> set cs) (first_occurrences ts)"
      by (auto intro: filter_cong)
    with True Cons.IH [of cs] show ?thesis by simp
  next
    case False
    have "filter (\<lambda>c. c \<notin> set (cs @ [t])) (first_occurrences ts)
            = filter (\<lambda>c. c \<notin> set cs) (filter (\<lambda>y. y \<noteq> t) (first_occurrences ts))"
      by (auto intro: filter_cong)
    with False Cons.IH [of "cs @ [t]"] show ?thesis by simp
  qed
qed

lemma set_first_occurrences: "set (first_occurrences xs) = set xs"
  by (induction xs) auto

lemma distinct_first_occurrences: "distinct (first_occurrences xs)"
  by (induction xs) (auto simp: set_first_occurrences)

lemma set_added: "set (cs @ added cs ts) = set cs \<union> set ts"
  by (auto simp: added_filter set_first_occurrences)

lemma distinct_added: "distinct cs \<Longrightarrow> distinct (cs @ added cs ts)"
  by (auto simp: added_filter distinct_first_occurrences)

lemma map_of_store: "map_of (store es vs) = map_of vs ++ map_of (rev es)"
  unfolding store_def
proof (induction es arbitrary: vs)
  case Nil
  show ?case by simp
next
  case (Cons e es)
  obtain k v where e: "e = (k, v)" by (cases e)
  show ?case
    unfolding e by (rule ext) (simp add: Cons.IH update_conv' map_add_def split: option.splits)
qed

lemma backoff_Some:
  "backoff k lo n = Some r \<Longrightarrow> \<exists>m. lo \<le> m \<and> m \<le> n \<and> k m = Some r"
proof (induction n)
  case 0
  then show ?case by (auto split: if_splits)
next
  case (Suc n)
  show ?case
  proof (cases "k (Suc n)")
    case None
    with Suc.prems have "backoff k lo n = Some r"
      by (auto split: if_splits)
    from Suc.IH [OF this] show ?thesis
      by (metis le_Suc_eq)
  next
    case (Some r')
    with Suc.prems have "r' = r" and "lo \<le> Suc n"
      by (auto split: if_splits)
    with Some show ?thesis by blast
  qed
qed

lemma match_here_Once:
  assumes "match_here (Once p # as) s = Some n"
  shows "\<exists>c cs n'. s = c # cs \<and> p c \<and> match_here as cs = Some n' \<and> n = Suc n'"
  using assms by (cases s) (auto split: if_splits)

lemma take_takeWhile_all:
  "m \<le> length (takeWhile p s) \<Longrightarrow> list_all p (take m s)"
proof -
  assume m: "m \<le> length (takeWhile p s)"
  have "take m (takeWhile p s @ dropWhile p s) = take m (takeWhile p s)"
    using m by (simp del: takeWhile_dropWhile_id)
  then have "take m s = take m (takeWhile p s)" by simp
  then have "set (take m s) \<subseteq> set (takeWhile p s)"
    by (simp add: set_take_subset)
  then show ?thesis
    by (auto simp: list_all_iff dest: set_takeWhileD)
qed

lemma match_here_AtLeast:
  assumes "match_here (AtLeast lo p # as) s = Some n"
  shows "\<exists>m n'. lo \<le> m \<and> m \<le> length s \<and> list_all p (take m s)
           \<and> match_here as (drop m s) = Some n' \<and> n = m + n'"
proof -
  from assms have
    "backoff (\<lambda>n. map_option (\<lambda>r. n + r) (match_here as (drop n s))) lo
       (length (takeWhile p s)) = Some n"
    by simp
  from backoff_Some [OF this] obtain m where
    m: "lo \<le> m" "m \<le> length (takeWhile p s)"
      "map_option (\<lambda>r. m + r) (match_here as (drop m s)) = Some n"
    by blast
  from m(3) obtain n' where n': "match_here as (drop m s) = Some n'" "n = m + n'"
    by auto
  have "length (takeWhile p s) \<le> length s" by (rule length_takeWhile_le)
  with m(1,2) n' take_takeWhile_all [OF m(2)] show ?thesis
    by (metis le_trans)
qed

text \<open>Every match is found at some position of the line.\<close>

lemma match_all_at:
  "m \<in> set (match_all as s)
     \<Longrightarrow> \<exists>i n. match_here as (drop i s) = Some n \<and> m = take n (drop i s)"
proof (induction as s rule: match_all.induct)
  case (1 as)
  then show ?case
    by (cases "match_here as []") auto
next
  case (2 as c cs)
  show ?case
  proof (cases "match_here as (c # cs)")
    case None
    with 2 obtain i n where
      "match_here as (drop i cs) = Some n" "m = take n (drop i cs)"
      by auto
    then have "match_here as (drop (Suc i) (c # cs)) = Some n
                 \<and> m = take n (drop (Suc i) (c # cs))"
      by simp
    then show ?thesis by blast
  next
    case (Some n)
    with "2.prems" have "m = take n (c # cs) \<or> m \<in> set (match_all as (drop (max n 1) (c # cs)))"
      by simp
    then show ?thesis
    proof
      assume "m = take n (c # cs)"
      with Some have "match_here as (drop 0 (c # cs)) = Some n
                        \<and> m = take n (drop 0 (c # cs))"
        by simp
      then show ?thesis by blast
    next
      assume "m \<in> set (match_all as (drop (max n 1) (c # cs)))"
      from "2.IH"(2) [OF Some this] obtain i k where
        ik: "match_here as (drop i (drop (max n 1) (c # cs))) = Some k"
          "m = take k (drop i (drop (max n 1) (c # cs)))"
        by blast
      have "drop i (drop (max n 1) (c # cs)) = drop (i + max n 1) (c # cs)"
        by simp
      then show ?thesis
        using ik by metis
    qed
  qed
qed

lemma ident_not_space: "is_ident c \<Longrightarrow> \<not> is_space c"
  by (auto simp: is_ident_def is_word_def is_space_def hyphen_def)

lemma ident_not_colon: "is_ident c \<Longrightarrow> c \<noteq> colon"
  by (auto simp: is_ident_def is_word_def colon_def hyphen_def)

lemma space_not_colon: "is_space c \<Longrightarrow> c \<noteq> colon"
  by (auto simp: is_space_def colon_def)

lemma space_not_semicolon: "is_space c \<Longrightarrow> c \<noteq> semicolon"
  by (auto simp: is_space_def semicolon_def)

lemma hyphen_facts: "\<not> is_space hyphen" "hyphen \<noteq> colon" "is_ident hyphen"
  by (simp_all add: is_space_def hyphen_def colon_def is_ident_def)

text \<open>Every match of the variable pattern has the shape the pattern describes.\<close>

lemma var_match_shape:
  assumes "m \<in> set (match_all var_pattern line)"
  shows "\<exists>name sp rest. m = hyphen # hyphen # name @ sp @ colon # rest
           \<and> name \<noteq> [] \<and> list_all is_ident name \<and> list_all is_space sp
           \<and> rest \<noteq> [] \<and> semicolon \<notin> set rest"
proof -
  from match_all_at [OF assms] obtain s n where
    s: "match_here var_pattern s = Some n" "m = take n s"
    by blast
  from match_here_Once [OF s(1) [unfolded var_pattern_def]] obtain s1 n1 where
    1: "s = hyphen # s1" "n = Suc n1"
      "match_here [Once (\<lambda>c. c = hyphen), AtLeast 1 is_ident,
         AtLeast 0 is_space, Once (\<lambda>c. c = colon), AtLeast 0 is_space,
         AtLeast 1 not_semicolon] s1 = Some n1"
    by blast
  from match_here_Once [OF 1(3)] obtain s2 n2 where
    2: "s1 = hyphen # s2" "n1 = Suc n2"
      "match_here [AtLeast 1 is_ident,
         AtLeast 0 is_space, Once (\<lambda>c. c = colon), AtLeast 0 is_space,
         AtLeast 1 not_semicolon] s2 = Some n2"
    by blast
  from match_here_AtLeast [OF 2(3)] obtain m3 n3 where
    3: "1 \<le> m3" "m3 \<le> length s2" "list_all is_ident (take m3 s2)" "n2 = m3 + n3"
      "match_here [AtLeast 0 is_space, Once (\<lambda>c. c = colon), AtLeast 0 is_space,
         AtLeast 1 not_semicolon] (drop m3 s2) = Some n3"
    by blast
  from match_here_AtLeast [OF 3(5)] obtain m4 n4 where
    4: "m4 \<le> length (drop m3 s2)" "list_all is_space (take m4 (drop m3 s2))" "n3 = m4 + n4"
      "match_here [Once (\<lambda>c. c = colon), AtLeast 0 is_space,
         AtLeast 1 not_semicolon] (drop m4 (drop m3 s2)) = Some n4"
    by blast
  from match_here_Once [OF 4(4)] obtain s5 n5 where
    5: "drop m4 (drop m3 s2) = colon # s5" "n4 = Suc n5"
      "match_here [AtLeast 0 is_space, AtLeast 1 not_semicolon] s5 = Some n5"
    by blast
  from match_here_AtLeast [OF 5(3)] obtain m6 n6 where
    6: "m6 \<le> length s5" "list_all is_space (take m6 s5)" "n5 = m6 + n6"
      "match_here [AtLeast 1 not_semicolon] (drop m6 s5) = Some n6"
    by blast
  from match_here_AtLeast [OF 6(4)] obtain m7 n7 where
    7: "1 \<le> m7" "m7 \<le> length (drop m6 s5)" "list_all not_semicolon (take m7 (drop m6 s5))"
      "n6 = m7 + n7" "match_here [] (drop m7 (drop m6 s5)) = Some n7"
    by blast
  from 7(5) have n7: "n7 = 0" by simp
  let ?name = "take m3 s2" and ?sp = "take m4 (drop m3 s2)"
  let ?rest = "take m6 s5 @ take m7 (drop m6 s5)"
  have a: "take (m3 + n3) s2 = ?name @ take n3 (drop m3 s2)"
    by (simp add: take_add)
  have b: "take (m4 + n4) (drop m3 s2) = ?sp @ take n4 (drop m4 (drop m3 s2))"
    by (simp only: take_add)
  have c: "take (m6 + m7) s5 = ?rest"
    by (simp only: take_add)
  have "m = hyphen # hyphen # take n2 s2"
    using s(2) 1(1,2) 2(1,2) by simp
  also have "take n2 s2 = ?name @ ?sp @ colon # ?rest"
    using a b c 3(4) 4(3) 5(1,2) 6(3) 7(4) n7 by simp
  finally have shape: "m = hyphen # hyphen # ?name @ ?sp @ colon # ?rest" .
  have name: "?name \<noteq> []" using 3(1,2) by auto
  have rest: "?rest \<noteq> []" using 7(1,2) by auto
  have "semicolon \<notin> set (take m6 s5)"
    using 6(2) space_not_semicolon by (auto simp: list_all_iff)
  moreover have "semicolon \<notin> set (take m7 (drop m6 s5))"
    using 7(3) by (auto simp: list_all_iff not_semicolon_def)
  ultimately have semi: "semicolon \<notin> set ?rest" by simp
  from shape name 3(3) 4(2) rest semi show ?thesis by blast
qed

text \<open>Every match of the class pattern is a period and one or more identifier characters.\<close>

lemma class_match_shape:
  assumes "t \<in> set (match_all class_pattern line)"
  shows "\<exists>name. t = period # name \<and> name \<noteq> [] \<and> list_all is_ident name"
proof -
  from match_all_at [OF assms] obtain s n where
    s: "match_here class_pattern s = Some n" "t = take n s"
    by blast
  from match_here_Once [OF s(1) [unfolded class_pattern_def]] obtain s1 n1 where
    1: "s = period # s1" "n = Suc n1" "match_here [AtLeast 1 is_ident] s1 = Some n1"
    by blast
  from match_here_AtLeast [OF 1(3)] obtain m2 n2 where
    2: "1 \<le> m2" "m2 \<le> length s1" "list_all is_ident (take m2 s1)" "n1 = m2 + n2"
      "match_here [] (drop m2 s1) = Some n2"
    by blast
  from 2(5) have "n2 = 0" by simp
  with s(2) 1(1,2) 2(4) have "t = period # take m2 s1" by simp
  moreover have "take m2 s1 \<noteq> []" using 2(1,2) by auto
  ultimately show ?thesis using 2(3) by blast
qed

lemma split_no_sep: "sep \<notin> set t \<Longrightarrow> split sep t = [t]"
  by (induction t) auto

lemma split_at_first: "sep \<notin> set n \<Longrightarrow> split sep (n @ sep # t) = n # split sep t"
  by (induction n) auto

lemma trim_name:
  assumes "list_all is_ident name" and "list_all is_space sp"
  shows "trim (hyphen # hyphen # name @ sp) = hyphen # hyphen # name"
proof -
  have front: "dropWhile is_space (hyphen # hyphen # name @ sp) = hyphen # hyphen # name @ sp"
    by (simp add: hyphen_facts)
  have "rev (hyphen # hyphen # name @ sp) = rev sp @ (rev name @ [hyphen, hyphen])"
    by simp
  moreover have "dropWhile is_space (rev sp @ (rev name @ [hyphen, hyphen]))
                   = dropWhile is_space (rev name @ [hyphen, hyphen])"
    using assms(2) by (intro dropWhile_append2) (auto simp: list_all_iff)
  moreover have "dropWhile is_space (rev name @ [hyphen, hyphen]) = rev name @ [hyphen, hyphen]"
  proof (cases "rev name")
    case Nil
    then show ?thesis by (simp add: hyphen_facts)
  next
    case (Cons c cs)
    then have "c \<in> set name" by (metis list.set_intros(1) set_rev)
    with assms(1) have "\<not> is_space c" by (auto simp: list_all_iff ident_not_space)
    with Cons show ?thesis by simp
  qed
  ultimately show ?thesis
    unfolding trim_def front by simp
qed

lemma var_entry_shape:
  assumes "list_all is_ident name" and "list_all is_space sp"
    and "colon \<notin> set rest"
  shows "var_entry (hyphen # hyphen # name @ sp @ colon # rest)
           = (if trim rest = [] then None else Some (hyphen # hyphen # name, trim rest))"
proof -
  have "colon \<notin> set (hyphen # hyphen # name @ sp)"
    using assms(1,2) ident_not_colon space_not_colon hyphen_facts(2)
    by (auto simp: list_all_iff)
  from split_at_first [OF this, of rest]
  have "split colon (hyphen # hyphen # name @ sp @ colon # rest) = [hyphen # hyphen # name @ sp, rest]"
    using split_no_sep [OF assms(3)] by simp
  then show ?thesis
    using trim_name [OF assms(1,2)] by (simp add: var_entry_def)
qed

lemma map_filter_append:
  "List.map_filter f (xs @ ys) = List.map_filter f xs @ List.map_filter f ys"
  by (simp add: List.map_filter_def)

lemma set_map_filter: "set (List.map_filter f xs) = {y. \<exists>x \<in> set xs. f x = Some y}"
  by (induction xs) (auto simp: List.map_filter_simps split: option.splits)

lemma last_entry_wins:
  assumes "i < length ms" and "var_entry (ms ! i) = Some (k, v)"
    and "list_all (\<lambda>m. map_option fst (var_entry m) \<noteq> Some k) (drop (Suc i) ms)"
  shows "map_of (rev (List.map_filter var_entry ms)) k = Some v"
proof -
  let ?A = "List.map_filter var_entry (take i ms)"
  let ?B = "List.map_filter var_entry (drop (Suc i) ms)"
  have "ms = take i ms @ ms ! i # drop (Suc i) ms"
    using assms(1) by (simp add: id_take_nth_drop)
  then have "List.map_filter var_entry ms = List.map_filter var_entry (take i ms @ ms ! i # drop (Suc i) ms)"
    by simp
  also have "\<dots> = ?A @ (k, v) # ?B"
    using assms(2) by (simp add: map_filter_append List.map_filter_simps)
  finally have es: "rev (List.map_filter var_entry ms) = rev ?B @ (k, v) # rev ?A"
    by simp
  have "k \<notin> fst ` set ?B"
    using assms(3) by (force simp: set_map_filter list_all_iff)
  then have "map_of (rev ?B) k = None"
    by (simp add: map_of_eq_None_iff)
  then show ?thesis
    unfolding es by (simp add: map_add_def)
qed

lemma stored_key:
  assumes "(k, v) \<in> set es"
  shows "k \<in> fst ` set (store es vs)"
proof -
  from assms have "k \<in> fst ` set (rev es)" by force
  then have "k \<in> dom (map_of vs ++ map_of (rev es))"
    by (simp add: dom_map_of_conv_image_fst)
  then show ?thesis
    by (simp only: map_of_store [symmetric] dom_map_of_conv_image_fst)
qed

lemma kept_keys: "fst ` set vs \<subseteq> fst ` set (store es vs)"
proof -
  have "dom (map_of vs) \<subseteq> dom (map_of vs ++ map_of (rev es))" by auto
  then show ?thesis
    by (simp only: map_of_store [symmetric] dom_map_of_conv_image_fst)
qed

lemma count_list_distinct: "distinct xs \<Longrightarrow> x \<in> set xs \<Longrightarrow> count_list xs x = 1"
  by (induction xs) auto

lemma registerLine_written:
  assumes "active_editor s = Some ed" and "dictionary_of (dictionary_file s) = Some d"
  shows "fst (registerLine s) = Returned"
    and "dictionary_of (dictionary_file (snd (registerLine s)))
           = Some \<lparr>variables = store (var_entries (current ed)) (variables d),
                   classes = classes d @ added (classes d) (class_tokens (current ed))\<rparr>"
    and "shown (snd (registerLine s))
           = shown s @ map (\<lambda>e. Info_variable (fst e)) (var_entries (current ed))
               @ map Info_class (added (classes d) (class_tokens (current ed)))"
proof -
  from registerLine_dictionary [OF assms] obtain data' where
    r: "registerLine s
             = (Returned,
                s\<lparr>shown := shown s @ map (\<lambda>e. Info_variable (fst e)) (var_entries (current ed))
                     @ map Info_class (added (classes d) (class_tokens (current ed))),
                  console := console s @ snd (load_dictionary (dictionary_file s)),
                  dictionary_file := Holds data'\<rparr>)"
      "as_dictionary data'
               = Some \<lparr>variables = store (var_entries (current ed)) (variables d),
                       classes = classes d @ added (classes d) (class_tokens (current ed))\<rparr>"
    by blast
  from r show "fst (registerLine s) = Returned" by simp
  from r show "dictionary_of (dictionary_file (snd (registerLine s)))
           = Some \<lparr>variables = store (var_entries (current ed)) (variables d),
                   classes = classes d @ added (classes d) (class_tokens (current ed))\<rparr>"
    by (simp add: dictionary_of_def)
  from r show "shown (snd (registerLine s))
           = shown s @ map (\<lambda>e. Info_variable (fst e)) (var_entries (current ed))
               @ map Info_class (added (classes d) (class_tokens (current ed)))"
    by simp
qed

lemma var_match_no_semicolon:
  assumes "m \<in> set (match_all var_pattern line)"
  shows "semicolon \<notin> set m"
proof -
  from var_match_shape [OF assms] obtain name sp rest where
    shape: "m = hyphen # hyphen # name @ sp @ colon # rest"
      "list_all is_ident name" "list_all is_space sp" "semicolon \<notin> set rest"
    by blast
  have "semicolon \<notin> set name"
    using shape(2) by (auto simp: list_all_iff is_ident_def is_word_def semicolon_def hyphen_def)
  moreover have "semicolon \<notin> set sp"
    using shape(3) space_not_semicolon by (auto simp: list_all_iff)
  ultimately show ?thesis
    using shape(1,4) by (simp add: hyphen_def semicolon_def colon_def)
qed

text \<open>A line without a period directly before an identifier character has no class token.\<close>

lemma class_tokens_none:
  assumes "list_all (\<lambda>(c, c'). c = period \<longrightarrow> \<not> is_ident c') (zip line (tl line))"
  shows "class_tokens line = []"
proof (rule ccontr)
  assume "class_tokens line \<noteq> []"
  then obtain t where "t \<in> set (match_all class_pattern line)"
    unfolding class_tokens_def by (cases "match_all class_pattern line") auto
  from match_all_at [OF this] obtain i n where
    i: "match_here class_pattern (drop i line) = Some n"
    by blast
  from match_here_Once [OF i [unfolded class_pattern_def]] obtain s1 n1 where
    1: "drop i line = period # s1" "match_here [AtLeast 1 is_ident] s1 = Some n1"
    by blast
  from match_here_AtLeast [OF 1(2)] obtain m2 where
    2: "1 \<le> m2" "m2 \<le> length s1" "list_all is_ident (take m2 s1)"
    by blast
  from 2(1,2) obtain c s2 where s1: "s1 = c # s2" by (cases s1) auto
  with 2(1,3) have c: "is_ident c" by (cases m2) auto
  have d: "drop i line = period # c # s2" using 1(1) s1 by simp
  then have "length (drop i line) = Suc (Suc (length s2))" by simp
  then have len: "Suc i < length line" by simp
  have "drop i line ! 0 = period" and "drop i line ! 1 = c"
    unfolding d by simp_all
  then have "line ! i = period" and "line ! Suc i = c"
    using len by simp_all
  then have "(period, c) \<in> set (zip line (tl line))"
    using len by (force simp: in_set_zip nth_tl)
  with assms c show False
    by (auto simp: list_all_iff)
qed

text \<open>A line that matches neither pattern leaves \<^verbatim>\<open>data\<close> as it is.\<close>

lemma merge_line_no_match:
  assumes "js_match var_pattern line = None" and "js_match class_pattern line = None"
  shows "merge_line line data = ([], Inr data)"
  using assms by (simp add: merge_line_def)

section \<open>Claims about the recorder\<close>

text \<open>
  Claim C1, as the code has it. For every line and every prior dictionary that
  is absent or holds a two-field record, after one recorder invocation each
  match of the variable pattern in the line (two hyphens, identifier
  characters, optional whitespace, a colon, then text without a semicolon)
  whose text after the colon has no further colon and is not blank makes its
  variable name a key of \<open>variables\<close>. When no later match of the line stores a
  value under that name, the stored value is the text after the colon,
  trimmed, whatever the key held before. That every match has this shape is
  \<open>var_match_shape\<close>.
\<close>

theorem registerLine_variables:
  assumes "active_editor s = Some ed"
    and "dictionary_file s = Missing \<or> dictionary_file s = Holds data"
    and "dictionary_of (dictionary_file s) = Some d"
    and "i < length (match_all var_pattern (current ed))"
    and "match_all var_pattern (current ed) ! i = hyphen # hyphen # name @ sp @ colon # rest"
    and "list_all is_ident name" and "list_all is_space sp"
    and "colon \<notin> set rest" and "trim rest \<noteq> []"
  shows "\<exists>d'. dictionary_of (dictionary_file (snd (registerLine s))) = Some d'
         \<and> hyphen # hyphen # name \<in> fst ` set (variables d')
         \<and> semicolon \<notin> set rest
         \<and> (list_all (\<lambda>m. map_option fst (var_entry m) \<noteq> Some (hyphen # hyphen # name))
               (drop (Suc i) (match_all var_pattern (current ed)))
            \<longrightarrow> map_of (variables d') (hyphen # hyphen # name) = Some (trim rest))"
proof -
  let ?ms = "match_all var_pattern (current ed)"
  let ?d' = "\<lparr>variables = store (var_entries (current ed)) (variables d),
              classes = classes d @ added (classes d) (class_tokens (current ed))\<rparr>"
  let ?key = "hyphen # hyphen # name"
  from assms(4) have mem: "?ms ! i \<in> set ?ms" by simp
  from var_match_no_semicolon [OF mem] have semi: "semicolon \<notin> set rest"
    unfolding assms(5) by simp
  have entry: "var_entry (?ms ! i) = Some (?key, trim rest)"
    unfolding assms(5) using var_entry_shape [OF assms(6-8)] assms(9) by simp
  then have "(?key, trim rest) \<in> set (var_entries (current ed))"
    using mem unfolding var_entries_def set_map_filter by force
  then have key: "?key \<in> fst ` set (variables ?d')"
    by (simp add: stored_key)
  have val: "map_of (variables ?d') ?key = Some (trim rest)"
    if "list_all (\<lambda>m. map_option fst (var_entry m) \<noteq> Some ?key) (drop (Suc i) ?ms)"
    using last_entry_wins [OF assms(4) entry that]
    by (simp add: map_of_store var_entries_def map_add_def)
  from registerLine_written(2) [OF assms(1,3)] semi key val show ?thesis
    by blast
qed

theorem registerLine_variables_witness:
  "map_of (variables (the (dictionary_of (dictionary_file (snd (registerLine
       (opened (ustr ''--a: 1; --b: 2'')
          (Holds (JObj [(ustr ''variables'', JObj [(ustr ''--a'', JStr (ustr ''0''))]),
                         (ustr ''classes'', JArr [])]))
          no_settings))))))) (ustr ''--a'')
     = Some (ustr ''1'')"
proof -
  let ?data = "JObj [(ustr ''variables'', JObj [(ustr ''--a'', JStr (ustr ''0''))]),
                     (ustr ''classes'', JArr [])]"
  let ?s = "opened (ustr ''--a: 1; --b: 2'') (Holds ?data) no_settings"
  let ?ed = "\<lparr>above = [], current = ustr ''--a: 1; --b: 2'', below = []\<rparr>"
  let ?d = "\<lparr>variables = [(ustr ''--a'', ustr ''0'')], classes = []\<rparr>"
  have ms: "match_all var_pattern (ustr ''--a: 1; --b: 2'') = [ustr ''--a: 1'', ustr ''--b: 2'']"
    by (simp add: var_pattern_def text_defs)
  have h1: "active_editor ?s = Some ?ed"
    by (simp add: opened_def)
  have h2: "dictionary_file ?s = Missing \<or> dictionary_file ?s = Holds ?data"
    by (simp add: opened_def)
  have h3: "dictionary_of (dictionary_file ?s) = Some ?d"
    by (simp add: opened_def dictionary_of_def as_dictionary_def variables_key_def
          classes_key_def ustr_def)
  have line: "current ?ed = ustr ''--a: 1; --b: 2''"
    by simp
  have h4: "0 < length (match_all var_pattern (current ?ed))"
    unfolding line ms by simp
  have h5: "match_all var_pattern (current ?ed) ! 0
              = hyphen # hyphen # ustr ''a'' @ [] @ colon # ustr '' 1''"
    unfolding line ms by (simp add: text_defs)
  have h6: "list_all is_ident (ustr ''a'')" by (simp add: text_defs)
  have h7: "list_all is_space []" by simp
  have h8: "colon \<notin> set (ustr '' 1'')" by (simp add: text_defs)
  have h9: "trim (ustr '' 1'') \<noteq> []" by (simp add: text_defs)
  have h10: "list_all (\<lambda>m. map_option fst (var_entry m) \<noteq> Some (hyphen # hyphen # ustr ''a''))
              (drop (Suc 0) (match_all var_pattern (current ?ed)))"
    unfolding line ms by (simp add: var_entry_def text_defs)
  from registerLine_variables [OF h1 h2 h3 h4 h5 h6 h7 h8 h9] h10
  have "map_of (variables (the (dictionary_of (dictionary_file (snd (registerLine ?s))))))
          (hyphen # hyphen # ustr ''a'') = Some (trim (ustr '' 1''))"
    by auto
  then show ?thesis by (simp add: text_defs)
qed

text \<open>
  Claim C1 as stated fails where the value text is blank: the line
  \<^verbatim>\<open>--a: \<close> (with a space behind the colon) is a match of the variable
  pattern, and the guard of line 62 stores nothing for it.
\<close>

theorem registerLine_blank_value_counterexample:
  "match_all var_pattern (ustr ''--a: '') = [ustr ''--a: '']
   \<and> registerLine (opened (ustr ''--a: '') Missing no_settings)
       = (Returned, (opened (ustr ''--a: '') Missing no_settings)
            \<lparr>dictionary_file := Holds (JObj [(ustr ''variables'', JObj []), (ustr ''classes'', JArr [])])\<rparr>)"
  by (simp add: recorder_defs text_defs)

text \<open>
  The value is cut at a second colon: for \<^verbatim>\<open>--u: a:b\<close> the destructuring of line
  61 keeps \<^verbatim>\<open>a\<close> of the three pieces.
\<close>

lemma registerLine_second_colon:
  "registerLine (opened (ustr ''--u: a:b'') Missing no_settings)
       = (Returned, (opened (ustr ''--u: a:b'') Missing no_settings)
            \<lparr>shown := [Info_variable (ustr ''--u'')],
             dictionary_file := Holds (JObj [(ustr ''variables'', JObj [(ustr ''--u'', JStr (ustr ''a''))]),
                (ustr ''classes'', JArr [])])\<rparr>)"
  by (simp add: recorder_defs text_defs)

text \<open>
  Claim C2, as the code has it. For every line and every prior dictionary that
  is absent, unreadable or a two-field record, the recorder shows one message
  for every match of the variable pattern that stores a value (a non-empty key
  and a non-empty value), whether or not the key was there before and however
  often the key repeats in the line, and after these one message for every
  class it appends; it shows none for a class token that \<open>classes\<close> has already.
\<close>

theorem registerLine_notifications:
  assumes "active_editor s = Some ed" and "dictionary_of (dictionary_file s) = Some d"
  shows "\<exists>d' new. dictionary_of (dictionary_file (snd (registerLine s))) = Some d'
           \<and> classes d' = classes d @ new
           \<and> new = filter (\<lambda>t. t \<notin> set (classes d)) (first_occurrences (class_tokens (current ed)))
           \<and> shown (snd (registerLine s))
               = shown s @ map (\<lambda>e. Info_variable (fst e)) (var_entries (current ed))
                   @ map Info_class new"
  using registerLine_written(2,3) [OF assms] by (simp add: added_filter)

theorem registerLine_notifications_witness:
  "shown (snd (registerLine (opened (ustr ''--a: 2; --a: 3 .x .x'')
       (Holds (JObj [(ustr ''variables'', JObj [(ustr ''--a'', JStr (ustr ''1''))]),
                      (ustr ''classes'', JArr [JStr (ustr ''.y'')])])) no_settings)))
     = [Info_variable (ustr ''--a''), Info_variable (ustr ''--a''), Info_class (ustr ''.x'')]"
proof -
  let ?f = "Holds (JObj [(ustr ''variables'', JObj [(ustr ''--a'', JStr (ustr ''1''))]),
                      (ustr ''classes'', JArr [JStr (ustr ''.y'')])])"
  let ?s = "opened (ustr ''--a: 2; --a: 3 .x .x'') ?f no_settings"
  let ?ed = "\<lparr>above = [], current = ustr ''--a: 2; --a: 3 .x .x'', below = []\<rparr>"
  let ?d = "\<lparr>variables = [(ustr ''--a'', ustr ''1'')], classes = [ustr ''.y'']\<rparr>"
  have h1: "active_editor ?s = Some ?ed"
    by (simp add: opened_def)
  have h2: "dictionary_of (dictionary_file ?s) = Some ?d"
    by (simp add: opened_def dictionary_of_def as_dictionary_def variables_key_def classes_key_def ustr_def)
  have line: "current ?ed = ustr ''--a: 2; --a: 3 .x .x''" by simp
  have vs: "var_entries (ustr ''--a: 2; --a: 3 .x .x'')
              = [(ustr ''--a'', ustr ''2''), (ustr ''--a'', ustr ''3 .x .x'')]"
    by (simp add: var_entries_def var_entry_def var_pattern_def List.map_filter_simps text_defs)
  have ts: "class_tokens (ustr ''--a: 2; --a: 3 .x .x'') = [ustr ''.x'', ustr ''.x'']"
    by (simp add: class_tokens_def class_pattern_def text_defs)
  from registerLine_notifications [OF h1 h2]
  have "shown (snd (registerLine ?s))
          = shown ?s @ map (\<lambda>e. Info_variable (fst e)) (var_entries (current ?ed))
              @ map Info_class (filter (\<lambda>t. t \<notin> set (classes ?d))
                  (first_occurrences (class_tokens (current ?ed))))"
    by auto
  also have "\<dots> = [Info_variable (ustr ''--a''), Info_variable (ustr ''--a''), Info_class (ustr ''.x'')]"
    unfolding line vs ts by (simp add: opened_def ustr_def)
  finally show ?thesis .
qed

text \<open>
  Claim C2 as stated fails where a value is overwritten: with \<^verbatim>\<open>--a\<close> in the
  dictionary, recording \<^verbatim>\<open>--a: 2\<close> overwrites its value and shows the message of
  line 64.
\<close>

theorem registerLine_overwrite_counterexample:
  "dictionary_of (Holds (JObj [(ustr ''variables'', JObj [(ustr ''--a'', JStr (ustr ''1''))]),
                      (ustr ''classes'', JArr [])]))
     = Some \<lparr>variables = [(ustr ''--a'', ustr ''1'')], classes = []\<rparr>
   \<and> registerLine (opened (ustr ''--a: 2'')
         (Holds (JObj [(ustr ''variables'', JObj [(ustr ''--a'', JStr (ustr ''1''))]),
                      (ustr ''classes'', JArr [])])) no_settings)
       = (Returned, (opened (ustr ''--a: 2'')
           (Holds (JObj [(ustr ''variables'', JObj [(ustr ''--a'', JStr (ustr ''2''))]),
                      (ustr ''classes'', JArr [])])) no_settings)
            \<lparr>shown := [Info_variable (ustr ''--a'')]\<rparr>)"
  by (simp add: recorder_defs text_defs)

text \<open>
  Claim C5. For every line and every prior dictionary whose \<open>classes\<close> has no
  duplicates, after one recorder invocation \<open>classes\<close> is the prior list followed
  by the tokens of the line it did not have, each once, in the order of their
  first occurrence; so every class token of the line occurs exactly once.
\<close>

theorem registerLine_classes:
  assumes "active_editor s = Some ed" and "dictionary_of (dictionary_file s) = Some d"
    and "distinct (classes d)"
  shows "\<exists>d'. fst (registerLine s) = Returned
         \<and> dictionary_of (dictionary_file (snd (registerLine s))) = Some d'
         \<and> classes d' = classes d
              @ filter (\<lambda>t. t \<notin> set (classes d)) (first_occurrences (class_tokens (current ed)))
         \<and> list_all (\<lambda>t. count_list (classes d') t = 1) (class_tokens (current ed))"
proof -
  let ?ts = "class_tokens (current ed)"
  let ?d' = "\<lparr>variables = store (var_entries (current ed)) (variables d),
              classes = classes d @ added (classes d) ?ts\<rparr>"
  have dist: "distinct (classes ?d')"
    using distinct_added [OF assms(3)] by simp
  have sub: "set ?ts \<subseteq> set (classes ?d')"
    using set_added [of "classes d" ?ts] by simp
  have "list_all (\<lambda>t. count_list (classes ?d') t = 1) ?ts"
    unfolding list_all_iff
  proof
    fix t
    assume "t \<in> set ?ts"
    with sub have "t \<in> set (classes ?d')" by (rule subsetD)
    with dist show "count_list (classes ?d') t = 1" by (rule count_list_distinct)
  qed
  moreover have "classes ?d' = classes d
      @ filter (\<lambda>t. t \<notin> set (classes d)) (first_occurrences ?ts)"
    by (simp add: added_filter)
  ultimately show ?thesis
    using registerLine_written(1,2) [OF assms(1,2)] by (intro exI [of _ ?d']) simp
qed

theorem registerLine_classes_witness:
  "map_option classes (dictionary_of (dictionary_file (snd (registerLine
       (opened (ustr ''.b .a .b .c'')
          (Holds (JObj [(ustr ''variables'', JObj []), (ustr ''classes'', JArr [JStr (ustr ''.a'')])]))
          no_settings)))))
     = Some [ustr ''.a'', ustr ''.b'', ustr ''.c'']"
proof -
  let ?f = "Holds (JObj [(ustr ''variables'', JObj []), (ustr ''classes'', JArr [JStr (ustr ''.a'')])])"
  let ?s = "opened (ustr ''.b .a .b .c'') ?f no_settings"
  let ?ed = "\<lparr>above = [], current = ustr ''.b .a .b .c'', below = []\<rparr>"
  let ?d = "\<lparr>variables = [], classes = [ustr ''.a'']\<rparr>"
  have h1: "active_editor ?s = Some ?ed"
    by (simp add: opened_def)
  have h2: "dictionary_of (dictionary_file ?s) = Some ?d"
    by (simp add: opened_def dictionary_of_def as_dictionary_def variables_key_def classes_key_def ustr_def)
  have h3: "distinct (classes ?d)" by simp
  have line: "current ?ed = ustr ''.b .a .b .c''" by simp
  have ts: "class_tokens (ustr ''.b .a .b .c'') = [ustr ''.b'', ustr ''.a'', ustr ''.b'', ustr ''.c'']"
    by (simp add: class_tokens_def class_pattern_def text_defs)
  from registerLine_classes [OF h1 h2 h3]
  have "map_option classes (dictionary_of (dictionary_file (snd (registerLine ?s))))
          = Some (classes ?d @ filter (\<lambda>t. t \<notin> set (classes ?d))
                (first_occurrences (class_tokens (current ?ed))))"
    by auto
  also have "\<dots> = Some [ustr ''.a'', ustr ''.b'', ustr ''.c'']"
    unfolding line ts by (simp add: ustr_def)
  finally show ?thesis .
qed

text \<open>
  Claim C10. When the file holds a two-field record, the recorder only grows
  it: every variable key stays a key, the prior \<open>classes\<close> is a prefix of the new
  one, and when the line matches neither pattern the file holds the value that
  was read.
\<close>

theorem registerLine_grows:
  assumes "active_editor s = Some ed" and "dictionary_file s = Holds data"
    and "as_dictionary data = Some d"
  shows "\<exists>d'. fst (registerLine s) = Returned
         \<and> dictionary_of (dictionary_file (snd (registerLine s))) = Some d'
         \<and> fst ` set (variables d) \<subseteq> fst ` set (variables d')
         \<and> take (length (classes d)) (classes d') = classes d
         \<and> (js_match var_pattern (current ed) = None \<and> js_match class_pattern (current ed) = None
              \<longrightarrow> dictionary_file (snd (registerLine s)) = Holds data)"
proof -
  have prior: "dictionary_of (dictionary_file s) = Some d"
    using assms(2,3) by (simp add: dictionary_of_def)
  let ?d' = "\<lparr>variables = store (var_entries (current ed)) (variables d),
              classes = classes d @ added (classes d) (class_tokens (current ed))\<rparr>"
  have keys: "fst ` set (variables d) \<subseteq> fst ` set (variables ?d')"
    using kept_keys by simp
  have pre: "take (length (classes d)) (classes ?d') = classes d"
    by simp
  have same: "dictionary_file (snd (registerLine s)) = Holds data"
    if "js_match var_pattern (current ed) = None \<and> js_match class_pattern (current ed) = None"
    using that assms(1,2)
    by (simp add: registerLine_def load_dictionary_def write_dictionary_def merge_line_no_match)
  from registerLine_written(1,2) [OF assms(1) prior] keys pre same show ?thesis
    by blast
qed

theorem registerLine_grows_witness:
  "dictionary_file (snd (registerLine (opened (ustr ''color: red'')
       (Holds (JObj [(ustr ''classes'', JArr [JStr (ustr ''.a'')]),
                      (ustr ''variables'', JObj [(ustr ''--x'', JStr (ustr ''1''))])]))
       no_settings)))
     = Holds (JObj [(ustr ''classes'', JArr [JStr (ustr ''.a'')]),
                    (ustr ''variables'', JObj [(ustr ''--x'', JStr (ustr ''1''))])])"
proof -
  let ?data = "JObj [(ustr ''classes'', JArr [JStr (ustr ''.a'')]),
                      (ustr ''variables'', JObj [(ustr ''--x'', JStr (ustr ''1''))])]"
  let ?s = "opened (ustr ''color: red'') (Holds ?data) no_settings"
  let ?ed = "\<lparr>above = [], current = ustr ''color: red'', below = []\<rparr>"
  let ?d = "\<lparr>variables = [(ustr ''--x'', ustr ''1'')], classes = [ustr ''.a'']\<rparr>"
  have h1: "active_editor ?s = Some ?ed"
    by (simp add: opened_def)
  have h2: "dictionary_file ?s = Holds ?data"
    by (simp add: opened_def)
  have h3: "as_dictionary ?data = Some ?d"
    by (simp add: as_dictionary_def variables_key_def classes_key_def ustr_def)
  have h4: "js_match var_pattern (current ?ed) = None \<and> js_match class_pattern (current ?ed) = None"
    by (simp add: js_match_def var_pattern_def class_pattern_def text_defs)
  from registerLine_grows [OF h1 h2 h3] h4 show ?thesis
    by blast
qed

text \<open>
  Claim C8, as the code has it. The class pattern needs a period directly
  followed by an ASCII letter, a digit, an underscore or a hyphen. On a line
  without one, such as the example line of the specification (which has no
  period at all) or a period followed by non-ASCII characters, a recorder
  invocation adds no entry to \<open>classes\<close>.
\<close>

theorem registerLine_no_class:
  assumes "active_editor s = Some ed" and "dictionary_of (dictionary_file s) = Some d"
    and "list_all (\<lambda>(c, c'). c = period \<longrightarrow> \<not> is_ident c') (zip (current ed) (tl (current ed)))"
  shows "\<exists>d'. fst (registerLine s) = Returned
         \<and> dictionary_of (dictionary_file (snd (registerLine s))) = Some d'
         \<and> classes d' = classes d"
  using registerLine_written(1,2) [OF assms(1,2)] class_tokens_none [OF assms(3)]
  by simp

theorem registerLine_no_class_witness:
  "map_option classes (dictionary_of (dictionary_file (snd (registerLine
       (opened [period, 9711, 9711] Missing no_settings)))))
     = Some []"
proof -
  let ?s = "opened [period, 9711, 9711] Missing no_settings"
  let ?ed = "\<lparr>above = [], current = [period, 9711, 9711], below = []\<rparr>"
  have h1: "active_editor ?s = Some ?ed"
    by (simp add: opened_def)
  have h2: "dictionary_of (dictionary_file ?s) = Some \<lparr>variables = [], classes = []\<rparr>"
    by (simp add: opened_def dictionary_of_def)
  have h3: "list_all (\<lambda>(c, c'). c = period \<longrightarrow> \<not> is_ident c')
              (zip (current ?ed) (tl (current ?ed)))"
    by (simp add: text_defs)
  from registerLine_no_class [OF h1 h2 h3] show ?thesis
    by auto
qed

text \<open>
  Claim C8 as stated fails on its own example: the line of the code units
  U+30AF U+30E9 U+30B9 U+25EF U+25EF followed by \<^verbatim>\<open> { color: red }\<close> leaves
  \<open>classes\<close> empty.
\<close>

theorem registerLine_example_counterexample:
  "map_option classes (dictionary_of Missing) = Some []
   \<and> map_option classes (dictionary_of (dictionary_file (snd (registerLine
       (opened ([12463, 12521, 12473, 9711, 9711] @ ustr '' { color: red }'') Missing no_settings)))))
     = Some []"
  by (simp add: recorder_defs text_defs)

text \<open>
  Claim C3 at a file that holds \<^verbatim>\<open>{}\<close>: \<^verbatim>\<open>JSON.parse\<close> succeeds, so nothing is
  caught or logged and \<^verbatim>\<open>data\<close> is the object without fields; for the line
  \<^verbatim>\<open>.a\<close> the call \<^verbatim>\<open>data.classes.includes\<close> throws a TypeError and the file is
  not written.
\<close>

theorem registerLine_wrong_shape:
  "registerLine (opened (ustr ''.a'') (Holds (JObj [])) no_settings)
     = (Threw TypeError, opened (ustr ''.a'') (Holds (JObj [])) no_settings)"
  by (simp add: recorder_defs text_defs)

text \<open>
  On an unreadable file the failure is logged and the file is left with what
  the line gives.
\<close>

lemma registerLine_unreadable:
  assumes "active_editor s = Some ed" and "dictionary_file s = Unreadable"
  shows "fst (registerLine s) = Returned"
    and "console (snd (registerLine s)) = console s @ [Dictionary_read_failed]"
    and "dictionary_of (dictionary_file (snd (registerLine s)))
           = Some \<lparr>variables = store (var_entries (current ed)) [],
                   classes = added [] (class_tokens (current ed))\<rparr>"
proof -
  have prior: "dictionary_of (dictionary_file s) = Some \<lparr>variables = [], classes = []\<rparr>"
    using assms(2) by (simp add: dictionary_of_def)
  from registerLine_written(1) [OF assms(1) prior]
  show "fst (registerLine s) = Returned" .
  from registerLine_written(2) [OF assms(1) prior]
  show "dictionary_of (dictionary_file (snd (registerLine s)))
           = Some \<lparr>variables = store (var_entries (current ed)) [],
                   classes = added [] (class_tokens (current ed))\<rparr>"
    by simp
  from registerLine_dictionary [OF assms(1) prior] assms(2)
  show "console (snd (registerLine s)) = console s @ [Dictionary_read_failed]"
    by (auto simp: load_dictionary_def)
qed

text \<open>
  On a blocked path the failed read is logged and the loops run and show their
  messages, but the write of line 78 throws: the invocation does not return
  and the path is as before.
\<close>

lemma registerLine_blocked:
  "registerLine (opened (ustr ''--a: 1'') Blocked no_settings)
     = (Threw FsError,
        (opened (ustr ''--a: 1'') Blocked no_settings)
          \<lparr>shown := [Info_variable (ustr ''--a'')], console := [Dictionary_read_failed]\<rparr>)"
  by (simp add: recorder_defs text_defs)

section \<open>Claims about the transform and the flag\<close>

text \<open>
  Claim C6. With an active line and no credential (the setting is absent or
  the empty string), the transform shows the error of line 95 and returns: no
  request is sent, the document is as before.
\<close>

theorem transformToCSS_no_credential:
  assumes "active_editor s = Some ed"
    and "apiKey (settings s) = None \<or> apiKey (settings s) = Some []"
  shows "transformToCSS service s = (Returned, s\<lparr>shown := shown s @ [Error_no_api_key]\<rparr>)"
  using assms by (auto simp: transformToCSS_def)

theorem transformToCSS_no_credential_witness:
  "transformToCSS (\<lambda>req. Network_failure) (opened (ustr ''red'') Missing no_settings)
     = (Returned, (opened (ustr ''red'') Missing no_settings)\<lparr>shown := [Error_no_api_key]\<rparr>)"
proof -
  let ?s = "opened (ustr ''red'') Missing no_settings"
  have h1: "active_editor ?s = Some \<lparr>above = [], current = ustr ''red'', below = []\<rparr>"
    by (simp add: opened_def)
  have h2: "apiKey (settings ?s) = None \<or> apiKey (settings ?s) = Some []"
    by (simp add: opened_def no_settings_def)
  have "shown ?s = []" by (simp add: opened_def)
  with transformToCSS_no_credential [OF h1 h2, of "\<lambda>req. Network_failure"] show ?thesis
    by simp
qed

text \<open>
  A response of the expected shape, with a non-empty content string, passes the
  check of line 118.
\<close>

lemma accepted_response:
  assumes "map_of fs (ustr ''choices'') = Some (JArr (JObj cand # others))"
    and "map_of cand (ustr ''message'') = Some (JObj msg)"
    and "map_of msg (ustr ''content'') = Some (JStr c)"
    and "c \<noteq> []"
  shows "\<not> response_rejected (JObj fs)" and "replacement_text (JObj fs) = Inr (trim c)"
  using assms by (simp_all add: json_defs)

text \<open>
  Claim C7. When the service answers the request with an object whose
  \<^verbatim>\<open>choices\<close> is an array, whose first candidate is an object with a \<^verbatim>\<open>message\<close>
  object, whose \<^verbatim>\<open>content\<close> is a non-empty string, the transform returns after
  exactly one replacement: the active line becomes the trimmed content, the
  lines above and below and all else but the list of requests stay.
\<close>

theorem transformToCSS_success:
  assumes "active_editor s = Some ed" and "apiKey (settings s) = Some k" and "k \<noteq> []"
    and "service (chat_request k (effective_prompt (settings s)) (current ed)) = Body (JObj fs)"
    and "map_of fs (ustr ''choices'') = Some (JArr (JObj cand # others))"
    and "map_of cand (ustr ''message'') = Some (JObj msg)"
    and "map_of msg (ustr ''content'') = Some (JStr c)"
    and "c \<noteq> []"
  shows "transformToCSS service s
           = (Returned,
              s\<lparr>requests := requests s @ [chat_request k (effective_prompt (settings s)) (current ed)],
                active_editor := Some (ed\<lparr>current := trim c\<rparr>),
                edits := edits s @ [trim c]\<rparr>)"
  using assms(1-4) accepted_response [OF assms(5-8)]
  by (simp add: transformToCSS_def)

theorem transformToCSS_success_witness:
  "transformToCSS
     (\<lambda>req. Body (JObj [(ustr ''choices'',
        JArr [JObj [(ustr ''message'', JObj [(ustr ''content'', JStr (ustr '' .a { } ''))])]])]))
     ((opened (ustr ''class a'') Missing \<lparr>apiKey = Some (ustr ''k''), systemPrompt = None\<rparr>)
        \<lparr>active_editor := Some \<lparr>above = [ustr ''x''], current = ustr ''class a'', below = [ustr ''y'']\<rparr>\<rparr>)
   = (Returned,
      (opened (ustr ''class a'') Missing \<lparr>apiKey = Some (ustr ''k''), systemPrompt = None\<rparr>)
        \<lparr>active_editor := Some \<lparr>above = [ustr ''x''], current = ustr ''.a { }'', below = [ustr ''y'']\<rparr>,
         requests := [\<lparr>bearer = ustr ''k'', system_content = DEFAULT_PROMPT, user_content = ustr ''class a''\<rparr>],
         edits := [ustr ''.a { }'']\<rparr>)"
proof -
  let ?cfg = "\<lparr>apiKey = Some (ustr ''k''), systemPrompt = None\<rparr>"
  let ?ed = "\<lparr>above = [ustr ''x''], current = ustr ''class a'', below = [ustr ''y'']\<rparr>"
  let ?s = "(opened (ustr ''class a'') Missing ?cfg)\<lparr>active_editor := Some ?ed\<rparr>"
  let ?msg = "[(ustr ''content'', JStr (ustr '' .a { } ''))]"
  let ?cand = "[(ustr ''message'', JObj ?msg)]"
  let ?fs = "[(ustr ''choices'', JArr [JObj ?cand])]"
  let ?service = "\<lambda>req::request. Body (JObj ?fs)"
  have h1: "active_editor ?s = Some ?ed" by simp
  have h2: "apiKey (settings ?s) = Some (ustr ''k'')" by (simp add: opened_def)
  have h3: "ustr ''k'' \<noteq> []" by (simp add: ustr_def)
  have h4: "?service (chat_request (ustr ''k'') (effective_prompt (settings ?s)) (current ?ed))
              = Body (JObj ?fs)"
    by simp
  have h5: "map_of ?fs (ustr ''choices'') = Some (JArr (JObj ?cand # []))" by simp
  have h6: "map_of ?cand (ustr ''message'') = Some (JObj ?msg)" by simp
  have h7: "map_of ?msg (ustr ''content'') = Some (JStr (ustr '' .a { } ''))" by simp
  have h8: "ustr '' .a { } '' \<noteq> []" by (simp add: ustr_def)
  have t: "trim (ustr '' .a { } '') = ustr ''.a { }''" by (simp add: text_defs)
  from transformToCSS_success [of ?s ?ed "ustr ''k''" ?service, OF h1 h2 h3 h4 h5 h6 h7 h8]
  show ?thesis
    unfolding t by (simp add: opened_def effective_prompt_def chat_request_def)
qed

text \<open>
  Claim C4 at a network failure: \<^verbatim>\<open>await fetch(...)\<close> rejects, nothing catches it,
  and the handler ends with that exception; no message is shown. The document
  is unchanged.
\<close>

theorem transformToCSS_network_failure:
  "transformToCSS (\<lambda>req. Network_failure)
     (opened (ustr ''red'') Missing \<lparr>apiKey = Some (ustr ''k''), systemPrompt = None\<rparr>)
   = (Threw FetchError,
      (opened (ustr ''red'') Missing \<lparr>apiKey = Some (ustr ''k''), systemPrompt = None\<rparr>)
        \<lparr>requests := [\<lparr>bearer = ustr ''k'', system_content = DEFAULT_PROMPT, user_content = ustr ''red''\<rparr>]\<rparr>)"
  by (simp add: transform_defs ustr_def)

text \<open>
  A content that is truthy but not a string passes the check of line 118; then
  \<^verbatim>\<open>.trim()\<close> throws in the callback of \<^verbatim>\<open>editor.edit\<close>.
\<close>

lemma transformToCSS_content_not_string:
  "transformToCSS
     (\<lambda>req. Body (JObj [(ustr ''choices'',
        JArr [JObj [(ustr ''message'', JObj [(ustr ''content'', JNum 5)])]])]))
     (opened (ustr ''red'') Missing \<lparr>apiKey = Some (ustr ''k''), systemPrompt = None\<rparr>)
   = (Threw TypeError,
      (opened (ustr ''red'') Missing \<lparr>apiKey = Some (ustr ''k''), systemPrompt = None\<rparr>)
        \<lparr>requests := [\<lparr>bearer = ustr ''k'', system_content = DEFAULT_PROMPT, user_content = ustr ''red''\<rparr>]\<rparr>)"
  by (simp add: transform_defs json_defs ustr_def)

text \<open>A response that the check of line 118 rejects gives the error of line 119.\<close>

lemma transformToCSS_rejected:
  assumes "active_editor s = Some ed" and "apiKey (settings s) = Some k" and "k \<noteq> []"
    and "service (chat_request k (effective_prompt (settings s)) (current ed)) = Body data"
    and "response_rejected data"
  shows "transformToCSS service s
           = (Returned,
              s\<lparr>requests := requests s @ [chat_request k (effective_prompt (settings s)) (current ed)],
                shown := shown s @ [Error_transform_failed]\<rparr>)"
  using assms by (simp add: transformToCSS_def)

text \<open>
  The document changes only by a replacement of the active line, and only in
  an invocation that returns.
\<close>

lemma transformToCSS_document:
  "active_editor (snd (transformToCSS service s)) = active_editor s
   \<and> edits (snd (transformToCSS service s)) = edits s
   \<or> (\<exists>ed t. active_editor s = Some ed
        \<and> active_editor (snd (transformToCSS service s)) = Some (ed\<lparr>current := t\<rparr>)
        \<and> edits (snd (transformToCSS service s)) = edits s @ [t]
        \<and> fst (transformToCSS service s) = Returned)"
  by (simp add: transformToCSS_def Let_def
        split: option.splits fetch_outcome.splits sum.splits)

text \<open>Neither handler reads or writes \<^verbatim>\<open>registerMode\<close>.\<close>

lemma registerLine_flag:
  "registerLine (s\<lparr>registerMode := b\<rparr>)
     = (fst (registerLine s), (snd (registerLine s))\<lparr>registerMode := b\<rparr>)"
  by (simp add: registerLine_def split: option.splits prod.splits sum.splits)

lemma transformToCSS_flag:
  "transformToCSS service (s\<lparr>registerMode := b\<rparr>)
     = (fst (transformToCSS service s), (snd (transformToCSS service s))\<lparr>registerMode := b\<rparr>)"
  by (simp add: transformToCSS_def Let_def
        split: option.splits fetch_outcome.splits sum.splits)

text \<open>
  Claim C9. Whatever the flag is set to, the record command and the transform
  command end the same way and leave the same state, but for the flag itself;
  the toggle command flips the flag and shows the message of line 31, no more.
\<close>

theorem registerMode_inert:
  "registerLine (s\<lparr>registerMode := b\<rparr>)
     = (fst (registerLine s), (snd (registerLine s))\<lparr>registerMode := b\<rparr>)
   \<and> transformToCSS service (s\<lparr>registerMode := b\<rparr>)
     = (fst (transformToCSS service s), (snd (transformToCSS service s))\<lparr>registerMode := b\<rparr>)
   \<and> toggleRegisterMode s
     = s\<lparr>registerMode := \<not> registerMode s,
         shown := shown s @ [Info_register_mode (\<not> registerMode s)]\<rparr>"
  using registerLine_flag transformToCSS_flag
  by (simp add: toggleRegisterMode_def)

theorem registerMode_inert_witness:
  "registerLine ((opened (ustr ''.a'') Missing no_settings)\<lparr>registerMode := True\<rparr>)
     = (Returned,
        (opened (ustr ''.a'') Missing no_settings)
          \<lparr>registerMode := True, shown := [Info_class (ustr ''.a'')],
            dictionary_file := Holds (JObj [(ustr ''variables'', JObj []),
               (ustr ''classes'', JArr [JStr (ustr ''.a'')])])\<rparr>)"
proof -
  have "registerLine (opened (ustr ''.a'') Missing no_settings)
     = (Returned,
        (opened (ustr ''.a'') Missing no_settings)
          \<lparr>shown := [Info_class (ustr ''.a'')],
            dictionary_file := Holds (JObj [(ustr ''variables'', JObj []),
               (ustr ''classes'', JArr [JStr (ustr ''.a'')])])\<rparr>)"
    by (simp add: recorder_defs text_defs)
  with registerMode_inert [where s = "opened (ustr ''.a'') Missing no_settings" and b = True
      and service = "\<lambda>req. Network_failure"]
  show ?thesis by (simp add: opened_def)
qed

text \<open>Without an active editor both commands return at once.\<close>

lemma no_active_editor:
  assumes "active_editor s = None"
  shows "registerLine s = (Returned, s)" and "transformToCSS service s = (Returned, s)"
  using assms by (simp_all add: registerLine_def transformToCSS_def)

end
